theory Spec2Isabelle
  imports Main "HOL-Library.Word"
begin

section \<open>JavaScript strings\<close>

text \<open>
  A JavaScript string is a sequence of 16-bit UTF-16 code units; \<open>length\<close>,
  \<open>charAt\<close>, \<open>slice\<close>, \<open>substring\<close> and a regular expression without the \<open>u\<close>
  flag all count and match code units. The Cyrillic letters of the file name's
  character class do not fit into HOL's 8-bit \<open>char\<close>, so the model keeps the code units.
\<close>

type_synonym unit16 = "16 word"
type_synonym jsstring = "unit16 list"

text \<open>An ASCII literal of the source, as code units.\<close>

definition js :: "string \<Rightarrow> jsstring" where
  "js s = map of_char s"

text \<open>
  The white space and line terminators that \<open>String.prototype.trim\<close> removes
  (ECMAScript: TAB, VT, FF, SP, NBSP, ZWNBSP, the space separators of category Zs,
  LF, CR, LS, PS).
\<close>

definition isWhiteSpace :: "unit16 \<Rightarrow> bool" where
  "isWhiteSpace c \<longleftrightarrow>
     c = 0x0009 \<or> c = 0x000A \<or> c = 0x000B \<or> c = 0x000C \<or> c = 0x000D \<or>
     c = 0x0020 \<or> c = 0x00A0 \<or> c = 0x1680 \<or> (0x2000 \<le> c \<and> c \<le> 0x200A) \<or>
     c = 0x2028 \<or> c = 0x2029 \<or> c = 0x202F \<or> c = 0x205F \<or> c = 0x3000 \<or>
     c = 0xFEFF"

definition trim :: "jsstring \<Rightarrow> jsstring" where
  "trim s = rev (dropWhile isWhiteSpace (rev (dropWhile isWhiteSpace s)))"

text \<open>\<open>s.charAt(i)\<close> is the one-unit string at index \<open>i\<close>, or the empty string out of range.\<close>

definition charAt :: "jsstring \<Rightarrow> nat \<Rightarrow> jsstring" where
  "charAt s i = (if i < length s then [s ! i] else [])"

text \<open>\<open>s.slice(i)\<close> for a non-negative \<open>i\<close>.\<close>

definition slice :: "jsstring \<Rightarrow> nat \<Rightarrow> jsstring" where
  "slice s i = drop i s"

text \<open>\<open>s.substring(0, n)\<close>.\<close>

definition substring0 :: "jsstring \<Rightarrow> nat \<Rightarrow> jsstring" where
  "substring0 s n = take n s"

definition startsWith :: "jsstring \<Rightarrow> jsstring \<Rightarrow> bool" where
  "startsWith s p \<longleftrightarrow> take (length p) s = p"

text \<open>A string is truthy when it is not empty; an absent (undefined or null) value is falsy.\<close>

fun truthy :: "jsstring option \<Rightarrow> bool" where
  "truthy None = False"
| "truthy (Some s) = (s \<noteq> [])"

section \<open>The deck and the theme (types.ts)\<close>

record Slide =
  title :: jsstring
  content :: "jsstring list"
  imageKeyword :: jsstring
  speakerNotes :: "jsstring option"

record Presentation =
  mainTitle :: jsstring
  subTitle :: "jsstring option"
  slides :: "Slide list"
  includeImages :: bool

text \<open>The hex colours of a theme, \<open>theme.colors.hex\<close>, the only part the export reads.\<close>

record HexColors =
  hex_bg :: jsstring
  hex_text :: jsstring
  hex_accent :: jsstring
  hex_secondary :: jsstring

record Theme =
  theme_id :: jsstring
  theme_name :: jsstring
  hex :: HexColors

text \<open>The catalogue entry \<open>clean-white\<close> of themes.ts.\<close>

definition clean_white :: Theme where
  "clean_white = \<lparr> theme_id = js ''clean-white'', theme_name = js ''Clean White'',
     hex = \<lparr> hex_bg = js ''ffffff'', hex_text = js ''111827'',
             hex_accent = js ''2563eb'', hex_secondary = js ''6b7280'' \<rparr> \<rparr>"

section \<open>The document under construction (the pptxgenjs object)\<close>

text \<open>
  The library is not part of the repository. The model keeps what the export hands to
  it: \<open>defineSlideMaster\<close> records a master, \<open>addSlide\<close> appends a page that names its
  master, and \<open>addText\<close>, \<open>addShape\<close>, \<open>addImage\<close>, \<open>addNotes\<close> record their
  arguments on the page they are called on.
\<close>

datatype coord = Pct nat | Num nat   \<comment> \<open>\<open>"5%"\<close> is \<open>Pct 5\<close>, the number \<open>0\<close> is \<open>Num 0\<close>\<close>

datatype box = Box coord coord coord coord   \<comment> \<open>\<open>x\<close>, \<open>y\<close>, \<open>w\<close>, \<open>h\<close>\<close>

record text_options =
  at :: box
  fontSize :: nat
  bold :: bool
  align :: "jsstring option"
  color :: jsstring
  fontFace :: jsstring
  shrinkText :: bool
  bullet :: "(jsstring \<times> jsstring) option"   \<comment> \<open>\<open>type\<close> and \<open>code\<close>\<close>
  valign :: "jsstring option"

text \<open>One entry of \<open>bulletText\<close>: the text, \<open>breakLine\<close>, \<open>indentLevel\<close>, \<open>paraSpaceAfter\<close>.\<close>

datatype bullet_item = BulletItem jsstring bool nat nat

datatype element =
    TextBox jsstring text_options           \<comment> \<open>\<open>addText(string, options)\<close>\<close>
  | BulletBox "bullet_item list" text_options \<comment> \<open>\<open>addText(array, options)\<close>\<close>
  | Shape jsstring box jsstring nat         \<comment> \<open>\<open>addShape(name, box, line colour, line width)\<close>\<close>
  | Image jsstring box jsstring coord coord \<comment> \<open>\<open>addImage\<close>: data, box, sizing type, sizing w, h\<close>

record page =
  masterName :: jsstring
  elements :: "element list"
  page_notes :: "jsstring option"

datatype background = BgData jsstring | BgColor jsstring

text \<open>The slide number of a master: x, y, colour, font size, font face.\<close>

datatype slide_number = SlideNumber coord coord jsstring nat jsstring

text \<open>An object of a master: a rectangle with its box and fill colour.\<close>

datatype master_object = Rect box jsstring

record master =
  master_title :: jsstring
  background :: background
  slideNumber :: slide_number
  objects :: "master_object list"

record pres =
  pres_title :: jsstring
  pres_author :: jsstring
  masters :: "master list"
  pages :: "page list"

definition new_pres :: pres where
  "new_pres = \<lparr> pres_title = [], pres_author = [], masters = [], pages = [] \<rparr>"

definition defineSlideMaster :: "master \<Rightarrow> pres \<Rightarrow> pres" where
  "defineSlideMaster m p = p\<lparr> masters := masters p @ [m] \<rparr>"

definition addSlide :: "jsstring \<Rightarrow> pres \<Rightarrow> pres" where
  "addSlide mn p = p\<lparr> pages := pages p @ [\<lparr> masterName = mn, elements = [], page_notes = None \<rparr>] \<rparr>"

text \<open>A call on the slide object that \<open>addSlide\<close> returned as page \<open>k\<close>.\<close>

definition on_page :: "nat \<Rightarrow> (page \<Rightarrow> page) \<Rightarrow> pres \<Rightarrow> pres" where
  "on_page k f p = (if k < length (pages p) then p\<lparr> pages := (pages p)[k := f (pages p ! k)] \<rparr> else p)"

definition add_element :: "nat \<Rightarrow> element \<Rightarrow> pres \<Rightarrow> pres" where
  "add_element k e = on_page k (\<lambda>pg. pg\<lparr> elements := elements pg @ [e] \<rparr>)"

definition addNotes :: "nat \<Rightarrow> jsstring \<Rightarrow> pres \<Rightarrow> pres" where
  "addNotes k n = on_page k (\<lambda>pg. pg\<lparr> page_notes := Some n \<rparr>)"

section \<open>The runtime\<close>

text \<open>
  What the export takes from the browser and from the library, none of it code of this
  repository:
  \<^item> \<open>toUpperCase\<close>: the Unicode upper-case mapping of \<open>String.prototype.toUpperCase\<close>
    (a table of the JavaScript engine);
  \<^item> \<open>fetch\<close>: what the network does with the \<open>n\<close>-th request of the export, for its URL;
  \<^item> \<open>lib_throws\<close>: whether a call into the presentation library throws, given the
    document built so far.
\<close>

datatype reader_result =
    ReaderError                 \<comment> \<open>the FileReader fires \<open>error\<close>\<close>
  | ReaderResult jsstring       \<comment> \<open>\<open>reader.result\<close> at \<open>loadend\<close>\<close>

datatype blob_outcome =
    BlobError                   \<comment> \<open>\<open>response.blob()\<close> rejects\<close>
  | BlobData reader_result      \<comment> \<open>the body, and what reading it as a data URL gives\<close>

text \<open>
  When \<open>response.blob()\<close> settles, in milliseconds after the response has arrived, or
  never (the server sends the headers and then stalls).
\<close>

datatype blob_result =
    BlobNever
  | BlobSettles nat blob_outcome

record response =
  ok :: bool
  blob :: blob_result

datatype fetch_outcome =
    NetworkError                \<comment> \<open>\<open>fetch\<close> rejects\<close>
  | Response response

text \<open>When \<open>fetch(url)\<close> settles, in milliseconds after the call, or never.\<close>

datatype fetch_result =
    Never
  | Settles nat fetch_outcome

datatype libcall = DefineSlideMaster | AddSlide | AddText | AddShape | AddImage | AddNotes | WriteFile

datatype exn =
    ReadFailed                  \<comment> \<open>the rejection of the FileReader promise\<close>
  | LibraryError libcall

record runtime =
  toUpperCase :: "jsstring \<Rightarrow> jsstring"
  fetch :: "nat \<Rightarrow> jsstring \<Rightarrow> fetch_result"
  lib_throws :: "libcall \<Rightarrow> pres \<Rightarrow> bool"

section \<open>sanitizeText\<close>

definition sanitizeText :: "runtime \<Rightarrow> jsstring \<Rightarrow> jsstring" where
  "sanitizeText rt text =
     (if text = [] then []
      else let trimmed = trim text in
        if length trimmed = 0 then []
        else toUpperCase rt (charAt trimmed 0) @ slice trimmed 1)"

section \<open>The effects of an export\<close>

datatype log =
    WarnFetchFailed jsstring        \<comment> \<open>\<open>console.warn("Failed to fetch image for PPTX (timeout or error):", url)\<close>\<close>
  | ErrorFetchingImage nat exn      \<comment> \<open>\<open>console.error("Error fetching image for slide", i, e)\<close>\<close>
  | ErrorGeneration exn             \<comment> \<open>\<open>console.error("PPTX Generation Error:", e)\<close>\<close>

text \<open>
  The world an export runs in: the state of the caller (the deck object, which
  \<open>handleDownloadPPTX\<close> hands to \<open>downloadPPTX\<close> by reference, and its
  \<open>isExporting\<close> flag), the time in milliseconds, the URLs handed to \<open>fetch\<close> so far,
  the console, the alerts shown, and the files handed to the download (\<open>writeFile\<close>:
  file name and document).
\<close>

record world =
  deck :: Presentation
  isExporting :: bool
  clock :: nat
  requests :: "jsstring list"
  console :: "log list"
  alerts :: "jsstring list"
  files :: "(jsstring \<times> pres) list"

section \<open>getBase64FromUrl\<close>

text \<open>The delay of \<open>setTimeout(() => controller.abort(), 4000)\<close>, in milliseconds.\<close>

definition timeout_ms :: nat where
  "timeout_ms = 4000"

text \<open>
  The timer is armed before \<open>fetch\<close> is called and cleared when \<open>fetch\<close> has settled
  (line 24). A request that has not settled when the timer fires is aborted: \<open>fetch\<close>
  rejects, and the \<open>catch\<close> block returns the empty string, as it does for every
  exception raised under an \<open>await\<close> of the \<open>try\<close> block. No timer runs while
  \<open>response.blob()\<close> is awaited (line 28): a body that is slow is waited for, and with a
  body that never arrives the promise of \<open>getBase64FromUrl\<close> never settles (\<open>None\<close>).
  The promise of the FileReader is returned without an \<open>await\<close>, so its rejection
  (\<open>reader.onerror = reject\<close>) passes the \<open>catch\<close> block and rejects the promise of
  \<open>getBase64FromUrl\<close> itself (\<open>Some (Inl e)\<close>). The FileReader works on data that has
  arrived; the model gives it no duration.
\<close>

definition getBase64FromUrl ::
  "runtime \<Rightarrow> jsstring \<Rightarrow> world \<Rightarrow> world \<times> (exn + jsstring) option" where
  "getBase64FromUrl rt url w =
     (let w1 = w\<lparr> requests := requests w @ [url] \<rparr>;
          caught = (\<lambda>t. (w1\<lparr> clock := clock w + t, console := console w @ [WarnFetchFailed url] \<rparr>,
                         Some (Inr [])))
      in case fetch rt (length (requests w)) url of
           Never \<Rightarrow> caught timeout_ms
         | Settles t outcome \<Rightarrow>
             if timeout_ms \<le> t then caught timeout_ms
             else (case outcome of
                     NetworkError \<Rightarrow> caught t
                   | Response r \<Rightarrow>
                       if \<not> ok r then caught t
                       else (case blob r of
                               BlobNever \<Rightarrow> (w1\<lparr> clock := clock w + t \<rparr>, None)
                             | BlobSettles d BlobError \<Rightarrow> caught (t + d)
                             | BlobSettles d (BlobData ReaderError) \<Rightarrow>
                                 (w1\<lparr> clock := clock w + (t + d) \<rparr>, Some (Inl ReadFailed))
                             | BlobSettles d (BlobData (ReaderResult result)) \<Rightarrow>
                                 if result \<noteq> [] \<and> startsWith result (js ''data:image'')
                                 then (w1\<lparr> clock := clock w + (t + d) \<rparr>, Some (Inr result))
                                 else (w1\<lparr> clock := clock w + (t + d) \<rparr>, Some (Inr [])))))"

section \<open>downloadPPTX\<close>

text \<open>A call into the library: it throws, or it changes the document.\<close>

definition lib :: "runtime \<Rightarrow> libcall \<Rightarrow> (pres \<Rightarrow> pres) \<Rightarrow> pres \<Rightarrow> exn + pres" where
  "lib rt c f p = (if lib_throws rt c p then Inl (LibraryError c) else Inr (f p))"

text \<open>Sequencing: an exception ends the statements that follow.\<close>

definition and_then :: "exn + 'a \<Rightarrow> ('a \<Rightarrow> exn + 'b) \<Rightarrow> exn + 'b" where
  "and_then m f = (case m of Inl e \<Rightarrow> Inl e | Inr v \<Rightarrow> f v)"

text \<open>\<open>a || b\<close> on an optional string \<open>a\<close>.\<close>

definition or_else :: "jsstring option \<Rightarrow> jsstring \<Rightarrow> jsstring" where
  "or_else a b = (case a of None \<Rightarrow> b | Some s \<Rightarrow> if s \<noteq> [] then s else b)"

definition MASTER_SLIDE :: jsstring where
  "MASTER_SLIDE = js ''MASTER_SLIDE''"

definition Arial :: jsstring where
  "Arial = js ''Arial''"

text \<open>Lines 63 to 83: the argument of \<open>defineSlideMaster\<close>.\<close>

definition master_slide :: "Theme \<Rightarrow> jsstring option \<Rightarrow> master" where
  "master_slide theme backgroundImage =
     \<lparr> master_title = MASTER_SLIDE,
       background = (case backgroundImage of
                       None \<Rightarrow> BgColor (hex_bg (hex theme))
                     | Some b \<Rightarrow> if b \<noteq> [] then BgData b else BgColor (hex_bg (hex theme))),
       slideNumber = SlideNumber (Pct 95) (Pct 92) (hex_secondary (hex theme)) 12 Arial,
       objects = (if truthy backgroundImage then []
                  else [Rect (Box (Num 0) (Pct 95) (Pct 100) (Pct 5)) (hex_accent (hex theme))]) \<rparr>"

definition cover_title_options :: "Theme \<Rightarrow> text_options" where
  "cover_title_options theme =
     \<lparr> at = Box (Pct 5) (Pct 30) (Pct 90) (Pct 25), fontSize = 44, bold = True,
       align = Some (js ''center''), color = hex_text (hex theme), fontFace = Arial,
       shrinkText = True, bullet = None, valign = None \<rparr>"

definition cover_subtitle_options :: "Theme \<Rightarrow> text_options" where
  "cover_subtitle_options theme =
     \<lparr> at = Box (Pct 10) (Pct 55) (Pct 80) (Pct 15), fontSize = 24, bold = False,
       align = Some (js ''center''), color = hex_accent (hex theme), fontFace = Arial,
       shrinkText = True, bullet = None, valign = None \<rparr>"

definition slide_title_options :: "Theme \<Rightarrow> text_options" where
  "slide_title_options theme =
     \<lparr> at = Box (Pct 5) (Pct 5) (Pct 90) (Pct 15), fontSize = 32, bold = True,
       align = None, color = hex_accent (hex theme), fontFace = Arial,
       shrinkText = True, bullet = None, valign = None \<rparr>"

definition bullet_options :: "Theme \<Rightarrow> bool \<Rightarrow> text_options" where
  "bullet_options theme hasImage =
     \<lparr> at = Box (Pct 5) (Pct 25) (if hasImage then Pct 50 else Pct 90) (Pct 65), fontSize = 18,
       bold = False, align = None, color = hex_text (hex theme), fontFace = Arial,
       shrinkText = True, bullet = Some (js ''bullet'', js ''2022''), valign = Some (js ''top'') \<rparr>"

definition image_element :: "jsstring \<Rightarrow> element" where
  "image_element base64Image =
     Image base64Image (Box (Pct 58) (Pct 25) (Pct 37) (Pct 60)) (js ''cover'') (Pct 37) (Pct 60)"

text \<open>Lines 86 to 107: the cover slide.\<close>

definition cover_slide :: "runtime \<Rightarrow> Presentation \<Rightarrow> Theme \<Rightarrow> pres \<Rightarrow> exn + pres" where
  "cover_slide rt presentation theme p =
     (let cover = length (pages p) in
      and_then (lib rt AddSlide (addSlide MASTER_SLIDE) p) (\<lambda>p1.
      and_then (lib rt AddText (add_element cover
                  (TextBox (sanitizeText rt (mainTitle presentation)) (cover_title_options theme))) p1) (\<lambda>p2.
      case subTitle presentation of
        None \<Rightarrow> Inr p2
      | Some sub \<Rightarrow>
          if sub \<noteq> []
          then lib rt AddText (add_element cover
                 (TextBox (sanitizeText rt sub) (cover_subtitle_options theme))) p2
          else Inr p2)))"

text \<open>Lines 111 to 152 of the loop body: the page, its title, the line, the bullets.\<close>

definition slide_text :: "runtime \<Rightarrow> Theme \<Rightarrow> bool \<Rightarrow> Slide \<Rightarrow> pres \<Rightarrow> exn + pres" where
  "slide_text rt theme hasImage slide p =
     (let pptxSlide = length (pages p);
          bulletText = map (\<lambda>point. BulletItem (sanitizeText rt point) True 0 10) (content slide)
      in
      and_then (lib rt AddSlide (addSlide MASTER_SLIDE) p) (\<lambda>p1.
      and_then (lib rt AddText (add_element pptxSlide
                  (TextBox (sanitizeText rt (title slide)) (slide_title_options theme))) p1) (\<lambda>p2.
      and_then (lib rt AddShape (add_element pptxSlide
                  (Shape (js ''line'') (Box (Pct 5) (Pct 21) (Pct 90) (Num 0)) (hex_accent (hex theme)) 2)) p2) (\<lambda>p3.
      lib rt AddText (add_element pptxSlide (BulletBox bulletText (bullet_options theme hasImage))) p3))))"

text \<open>
  Lines 156 to 168: the value of \<open>base64Image\<close> before \<open>addImage\<close>. The \<open>catch\<close> of
  line 165 takes a rejection of \<open>getBase64FromUrl\<close>. \<open>None\<close>: the \<open>await\<close> of line 163
  never returns.
\<close>

definition slide_image ::
  "runtime \<Rightarrow> (nat \<Rightarrow> jsstring option) \<Rightarrow> (nat \<Rightarrow> jsstring option) \<Rightarrow> nat \<Rightarrow> Slide \<Rightarrow> world
     \<Rightarrow> world \<times> jsstring option option" where
  "slide_image rt imageSeeds customSlideImages i slide w =
     (let base64Image = customSlideImages i in
      if \<not> truthy base64Image then
        (let seed = or_else (imageSeeds i) (imageKeyword slide);
             imageUrl = js ''https://picsum.photos/seed/'' @ seed @ js ''/800/800''
         in case getBase64FromUrl rt imageUrl w of
              (w1, None) \<Rightarrow> (w1, None)
            | (w1, Some (Inr fetched)) \<Rightarrow>
                (w1, Some (if fetched \<noteq> [] then Some fetched else base64Image))
            | (w1, Some (Inl e)) \<Rightarrow>
                (w1\<lparr> console := console w1 @ [ErrorFetchingImage i e] \<rparr>, Some base64Image))
      else (w, Some base64Image))"

text \<open>Lines 170 to 176: the image block, if \<open>base64Image\<close> is truthy.\<close>

definition slide_add_image :: "runtime \<Rightarrow> nat \<Rightarrow> jsstring option \<Rightarrow> pres \<Rightarrow> exn + pres" where
  "slide_add_image rt pptxSlide base64Image p =
     (case base64Image of
        None \<Rightarrow> Inr p
      | Some d \<Rightarrow>
          if d \<noteq> [] then lib rt AddImage (add_element pptxSlide (image_element d)) p
          else Inr p)"

text \<open>Lines 180 to 182: the speaker notes, if there are any.\<close>

definition slide_notes :: "runtime \<Rightarrow> nat \<Rightarrow> Slide \<Rightarrow> pres \<Rightarrow> exn + pres" where
  "slide_notes rt pptxSlide slide p =
     (case speakerNotes slide of
        None \<Rightarrow> Inr p
      | Some n \<Rightarrow>
          if n \<noteq> [] then lib rt AddNotes (addNotes pptxSlide (sanitizeText rt n)) p
          else Inr p)"

text \<open>
  Lines 111 to 182: the body of the loop, for the slide at index \<open>i\<close>. \<open>None\<close>: the body
  never comes to its end.
\<close>

definition content_slide ::
  "runtime \<Rightarrow> Presentation \<Rightarrow> Theme \<Rightarrow> (nat \<Rightarrow> jsstring option) \<Rightarrow> (nat \<Rightarrow> jsstring option)
     \<Rightarrow> nat \<Rightarrow> Slide \<Rightarrow> world \<times> pres \<Rightarrow> world \<times> (exn + pres) option" where
  "content_slide rt presentation theme imageSeeds customSlideImages i slide st =
     (case st of (w, p) \<Rightarrow>
      let pptxSlide = length (pages p);
          hasImage = includeImages presentation
      in case slide_text rt theme hasImage slide p of
           Inl e \<Rightarrow> (w, Some (Inl e))
         | Inr p1 \<Rightarrow>
             if hasImage
             then (case slide_image rt imageSeeds customSlideImages i slide w of
                     (w1, None) \<Rightarrow> (w1, None)
                   | (w1, Some base64Image) \<Rightarrow>
                       (w1, Some (and_then (slide_add_image rt pptxSlide base64Image p1)
                                    (slide_notes rt pptxSlide slide))))
             else (w, Some (slide_notes rt pptxSlide slide p1)))"

text \<open>Line 110: the loop over \<open>presentation.slides\<close>, from index \<open>i\<close> on.\<close>

fun content_slides ::
  "runtime \<Rightarrow> Presentation \<Rightarrow> Theme \<Rightarrow> (nat \<Rightarrow> jsstring option) \<Rightarrow> (nat \<Rightarrow> jsstring option)
     \<Rightarrow> nat \<Rightarrow> Slide list \<Rightarrow> world \<times> pres \<Rightarrow> world \<times> (exn + pres) option" where
  "content_slides rt presentation theme imageSeeds customSlideImages i [] st =
     (fst st, Some (Inr (snd st)))"
| "content_slides rt presentation theme imageSeeds customSlideImages i (slide # rest) st =
     (case content_slide rt presentation theme imageSeeds customSlideImages i slide st of
        (w1, None) \<Rightarrow> (w1, None)
      | (w1, Some (Inl e)) \<Rightarrow> (w1, Some (Inl e))
      | (w1, Some (Inr p1)) \<Rightarrow>
          content_slides rt presentation theme imageSeeds customSlideImages (Suc i) rest (w1, p1))"

text \<open>The character class of line 187, ASCII letters and digits, U+0410 to U+044F and the space, on code units.\<close>

definition allowedChar :: "unit16 \<Rightarrow> bool" where
  "allowedChar c \<longleftrightarrow>
     (0x0061 \<le> c \<and> c \<le> 0x007A) \<or> (0x0041 \<le> c \<and> c \<le> 0x005A) \<or>
     (0x0030 \<le> c \<and> c \<le> 0x0039) \<or>
     (0x0430 \<le> c \<and> c \<le> 0x044F) \<or> (0x0410 \<le> c \<and> c \<le> 0x042F) \<or>
     c = 0x0020"

text \<open>Line 187: \<open>replace(/[^...]/g, "")\<close> deletes every code unit outside the class.\<close>

definition safeTitle :: "Presentation \<Rightarrow> jsstring" where
  "safeTitle presentation =
     (let s = substring0 (filter allowedChar (mainTitle presentation)) 30
      in if s \<noteq> [] then s else js ''Presentation'')"

definition fileName :: "Presentation \<Rightarrow> jsstring" where
  "fileName presentation = safeTitle presentation @ js ''.pptx''"

text \<open>The text of the alert of line 191.\<close>

definition save_error_message :: jsstring where
  "save_error_message =
     [0x041E, 0x0448, 0x0438, 0x0431, 0x043A, 0x0430, 0x0020, 0x043F, 0x0440, 0x0438, 0x0020,
      0x0441, 0x043E, 0x0445, 0x0440, 0x0430, 0x043D, 0x0435, 0x043D, 0x0438, 0x0438, 0x0020,
      0x0444, 0x0430, 0x0439, 0x043B, 0x0430, 0x002E, 0x0020, 0x041F, 0x043E, 0x043F, 0x0440,
      0x043E, 0x0431, 0x0443, 0x0439, 0x0442, 0x0435, 0x0020, 0x0435, 0x0449, 0x0435, 0x0020,
      0x0440, 0x0430, 0x0437, 0x002E]"

text \<open>Lines 185 to 192: the \<open>try\<close> block around the file name and \<open>writeFile\<close>.\<close>

definition write_step :: "runtime \<Rightarrow> Presentation \<Rightarrow> pres \<Rightarrow> world \<Rightarrow> world" where
  "write_step rt presentation p w =
     (if lib_throws rt WriteFile p
      then w\<lparr> console := console w @ [ErrorGeneration (LibraryError WriteFile)],
              alerts := alerts w @ [save_error_message] \<rparr>
      else w\<lparr> files := files w @ [(fileName presentation, p)] \<rparr>)"

text \<open>Lines 56 to 183: everything before the \<open>try\<close> block, which builds the document.\<close>

definition assemble ::
  "runtime \<Rightarrow> Presentation \<Rightarrow> Theme \<Rightarrow> (nat \<Rightarrow> jsstring option) \<Rightarrow> jsstring option
     \<Rightarrow> (nat \<Rightarrow> jsstring option) \<Rightarrow> world \<Rightarrow> world \<times> (exn + pres) option" where
  "assemble rt presentation theme imageSeeds backgroundImage customSlideImages w =
     (let pres0 = new_pres\<lparr> pres_title := mainTitle presentation,
                            pres_author := js ''FlowerSlide AI'' \<rparr>
      in case and_then (lib rt DefineSlideMaster
                          (defineSlideMaster (master_slide theme backgroundImage)) pres0)
                (cover_slide rt presentation theme) of
           Inl e \<Rightarrow> (w, Some (Inl e))
         | Inr p1 \<Rightarrow>
             content_slides rt presentation theme imageSeeds customSlideImages 0
               (slides presentation) (w, p1))"

text \<open>
  The whole function. \<open>Some (Inr ())\<close> is the fulfilled promise, \<open>Some (Inl e)\<close> the
  promise rejected with \<open>e\<close> (an exception of lines 56 to 183 is outside the \<open>try\<close>
  block), \<open>None\<close> the promise that never settles.
\<close>

definition downloadPPTX ::
  "runtime \<Rightarrow> Presentation \<Rightarrow> Theme \<Rightarrow> (nat \<Rightarrow> jsstring option) \<Rightarrow> jsstring option
     \<Rightarrow> (nat \<Rightarrow> jsstring option) \<Rightarrow> world \<Rightarrow> world \<times> (exn + unit) option" where
  "downloadPPTX rt presentation theme imageSeeds backgroundImage customSlideImages w =
     (case assemble rt presentation theme imageSeeds backgroundImage customSlideImages w of
        (w1, None) \<Rightarrow> (w1, None)
      | (w1, Some (Inl e)) \<Rightarrow> (w1, Some (Inl e))
      | (w1, Some (Inr p)) \<Rightarrow> (write_step rt presentation p w1, Some (Inr ())))"


section \<open>Reading a document\<close>

text \<open>The title of a page: the text of its first text box.\<close>

definition page_title :: "page \<Rightarrow> jsstring option" where
  "page_title pg = (case elements pg of TextBox t opts # rest \<Rightarrow> Some t | _ \<Rightarrow> None)"

text \<open>The image data of the image blocks of a page.\<close>

fun image_data :: "element \<Rightarrow> jsstring list" where
  "image_data (Image d b t sw sh) = [d]"
| "image_data e = []"

definition page_images :: "page \<Rightarrow> jsstring list" where
  "page_images pg = concat (map image_data (elements pg))"

text \<open>The names of the shapes drawn on a page itself.\<close>

fun shape_name :: "element \<Rightarrow> jsstring list" where
  "shape_name (Shape n b c wd) = [n]"
| "shape_name e = []"

definition page_shapes :: "page \<Rightarrow> jsstring list" where
  "page_shapes pg = concat (map shape_name (elements pg))"

text \<open>The library lays a page out on the master that the page names.\<close>

definition page_master :: "pres \<Rightarrow> page \<Rightarrow> master option" where
  "page_master d pg = find (\<lambda>m. master_title m = masterName pg) (masters d)"

text \<open>
  What a page shows from its master: the background, the slide number and the objects
  of the master. \<open>None\<close>: the document has no master of that name.
\<close>

definition page_background :: "pres \<Rightarrow> page \<Rightarrow> background option" where
  "page_background d pg = map_option background (page_master d pg)"

definition page_slide_number :: "pres \<Rightarrow> page \<Rightarrow> slide_number option" where
  "page_slide_number d pg = map_option slideNumber (page_master d pg)"

definition page_objects :: "pres \<Rightarrow> page \<Rightarrow> master_object list option" where
  "page_objects d pg = map_option objects (page_master d pg)"

text \<open>
  What every step of an export does to the world at most: it makes requests, lets time
  pass and writes to the console. \<open>after w reqs w'\<close>: the world \<open>w'\<close> is \<open>w\<close> after the
  requests \<open>reqs\<close>.
\<close>

definition after :: "world \<Rightarrow> jsstring list \<Rightarrow> world \<Rightarrow> bool" where
  "after w reqs w' \<longleftrightarrow>
     deck w' = deck w \<and> isExporting w' = isExporting w \<and> alerts w' = alerts w \<and>
     files w' = files w \<and> requests w' = requests w @ reqs \<and> clock w \<le> clock w' \<and>
     (\<exists>logs. console w' = console w @ logs)"

section \<open>Statements of the specification\<close>

text \<open>
  The image of a slide by the precedence of the specification: the custom image if one
  is supplied, otherwise what the remote lookup gave, otherwise none.
\<close>

definition spec_image :: "jsstring option \<Rightarrow> exn + jsstring \<Rightarrow> jsstring list" where
  "spec_image custom fetched =
     (case custom of
        Some c \<Rightarrow> if c \<noteq> [] then [c]
                  else (case fetched of Inr f \<Rightarrow> if f \<noteq> [] then [f] else [] | Inl e \<Rightarrow> [])
      | None \<Rightarrow> (case fetched of Inr f \<Rightarrow> if f \<noteq> [] then [f] else [] | Inl e \<Rightarrow> []))"

text \<open>The URL of the remote lookup for slide \<open>i\<close>.\<close>

definition spec_image_url :: "(nat \<Rightarrow> jsstring option) \<Rightarrow> nat \<Rightarrow> Slide \<Rightarrow> jsstring" where
  "spec_image_url imageSeeds i slide =
     js ''https://picsum.photos/seed/''
       @ (if truthy (imageSeeds i) then the (imageSeeds i) else imageKeyword slide)
       @ js ''/800/800''"

text \<open>
  The page of a slide in full: its title, the separator line and the bullets, then the
  image block for each image given, and the sanitized speaker notes if there are any.
\<close>

definition text_page :: "runtime \<Rightarrow> Theme \<Rightarrow> bool \<Rightarrow> Slide \<Rightarrow> page" where
  "text_page rt theme hasImage slide =
     \<lparr> masterName = MASTER_SLIDE,
       elements =
         [TextBox (sanitizeText rt (title slide)) (slide_title_options theme),
          Shape (js ''line'') (Box (Pct 5) (Pct 21) (Pct 90) (Num 0)) (hex_accent (hex theme)) 2,
          BulletBox (map (\<lambda>point. BulletItem (sanitizeText rt point) True 0 10) (content slide))
            (bullet_options theme hasImage)],
       page_notes = None \<rparr>"

definition slide_page :: "runtime \<Rightarrow> Theme \<Rightarrow> bool \<Rightarrow> Slide \<Rightarrow> jsstring list \<Rightarrow> page" where
  "slide_page rt theme hasImage slide images =
     (text_page rt theme hasImage slide)
       \<lparr> elements := elements (text_page rt theme hasImage slide) @ map image_element images,
         page_notes := (case speakerNotes slide of
                          None \<Rightarrow> None
                        | Some n \<Rightarrow> if n \<noteq> [] then Some (sanitizeText rt n) else None) \<rparr>"

text \<open>
  The fetches of the loop from index \<open>i\<close> on, when it comes to its end: one for every
  slide without a custom image when images are included, in the order of the deck, none
  otherwise. \<open>spec_requests\<close> are those of the whole deck, and \<open>fetches_before\<close> counts
  those made for the slides before slide \<open>i\<close>.
\<close>

fun spec_requests_from ::
  "Presentation \<Rightarrow> (nat \<Rightarrow> jsstring option) \<Rightarrow> (nat \<Rightarrow> jsstring option) \<Rightarrow> nat \<Rightarrow> Slide list
     \<Rightarrow> jsstring list" where
  "spec_requests_from presentation imageSeeds customSlideImages i [] = []"
| "spec_requests_from presentation imageSeeds customSlideImages i (slide # rest) =
     (if includeImages presentation \<and> \<not> truthy (customSlideImages i)
      then [spec_image_url imageSeeds i slide] else [])
     @ spec_requests_from presentation imageSeeds customSlideImages (Suc i) rest"

definition spec_requests ::
  "Presentation \<Rightarrow> (nat \<Rightarrow> jsstring option) \<Rightarrow> (nat \<Rightarrow> jsstring option) \<Rightarrow> jsstring list" where
  "spec_requests presentation imageSeeds customSlideImages =
     spec_requests_from presentation imageSeeds customSlideImages 0 (slides presentation)"

definition fetches_before ::
  "Presentation \<Rightarrow> (nat \<Rightarrow> jsstring option) \<Rightarrow> (nat \<Rightarrow> jsstring option) \<Rightarrow> nat \<Rightarrow> nat" where
  "fetches_before presentation imageSeeds customSlideImages i =
     length (spec_requests_from presentation imageSeeds customSlideImages 0
               (take i (slides presentation)))"

text \<open>
  What the page of the slide at index \<open>i\<close> has to be, when the lookup for the slide is
  request number \<open>n\<close>: the page of the slide with, when images are included, the custom
  image if there is one and otherwise the image that the precedence gives for the
  settled lookup of the slide's URL; with no image when images are not included.
\<close>

definition rendered ::
  "runtime \<Rightarrow> Presentation \<Rightarrow> Theme \<Rightarrow> (nat \<Rightarrow> jsstring option) \<Rightarrow> (nat \<Rightarrow> jsstring option)
     \<Rightarrow> nat \<Rightarrow> nat \<Rightarrow> Slide \<Rightarrow> page \<Rightarrow> bool" where
  "rendered rt presentation theme imageSeeds customSlideImages n i slide pg \<longleftrightarrow>
     (\<exists>images. pg = slide_page rt theme (includeImages presentation) slide images \<and>
        (if includeImages presentation
         then (if truthy (customSlideImages i) then images = [the (customSlideImages i)]
               else \<exists>w r. length (requests w) = n \<and>
                      snd (getBase64FromUrl rt (spec_image_url imageSeeds i slide) w) = Some r \<and>
                      images = spec_image (customSlideImages i) r)
         else images = []))"

text \<open>The cover page: the sanitized main title, and the sanitized subtitle if there is one.\<close>

definition cover_page :: "runtime \<Rightarrow> Presentation \<Rightarrow> Theme \<Rightarrow> page" where
  "cover_page rt presentation theme =
     \<lparr> masterName = MASTER_SLIDE,
       elements =
         TextBox (sanitizeText rt (mainTitle presentation)) (cover_title_options theme)
         # (case subTitle presentation of
              None \<Rightarrow> []
            | Some sub \<Rightarrow>
                if sub \<noteq> [] then [TextBox (sanitizeText rt sub) (cover_subtitle_options theme)]
                else []),
       page_notes = None \<rparr>"




text \<open>The body stalls: the response arrives in time and is 2xx, and its body never does.\<close>

fun body_stalls :: "fetch_result \<Rightarrow> bool" where
  "body_stalls Never = False"
| "body_stalls (Settles t NetworkError) = False"
| "body_stalls (Settles t (Response r)) = (t < timeout_ms \<and> ok r \<and> blob r = BlobNever)"







section \<open>Runtimes\<close>

text \<open>
  The property of the engine's upper-case table that sanitizing twice depends on: the
  upper case of a code unit that is not white space is not empty, neither starts nor
  ends with white space, and its first code unit is its own upper case.
\<close>

definition upper_stable :: "runtime \<Rightarrow> bool" where
  "upper_stable rt \<longleftrightarrow>
     (\<forall>c. \<not> isWhiteSpace c \<longrightarrow>
        (let u = toUpperCase rt [c]
         in u \<noteq> [] \<and> \<not> isWhiteSpace (hd u) \<and> \<not> isWhiteSpace (last u) \<and>
            toUpperCase rt [hd u] = [hd u]))"

text \<open>A library that throws in no call.\<close>

definition no_throw :: "runtime \<Rightarrow> bool" where
  "no_throw rt \<longleftrightarrow> (\<forall>c p. \<not> lib_throws rt c p)"

text \<open>A network on which no body stalls.\<close>

definition responsive :: "runtime \<Rightarrow> bool" where
  "responsive rt \<longleftrightarrow> (\<forall>n url. \<not> body_stalls (fetch rt n url))"

text \<open>A library that throws in no call before the write.\<close>

definition builds :: "runtime \<Rightarrow> bool" where
  "builds rt \<longleftrightarrow> (\<forall>c p. c \<noteq> WriteFile \<longrightarrow> \<not> lib_throws rt c p)"

text \<open>
  A part of the engine's table, for examples: the upper case of the Basic Latin letters,
  of the sharp s and of the Cyrillic letters U+0430 to U+045F; every other code unit is
  left as it is.
\<close>

definition upper_unit :: "unit16 \<Rightarrow> jsstring" where
  "upper_unit c =
     (if 0x0061 \<le> c \<and> c \<le> 0x007A then [c - 0x20]
      else if c = 0x00DF then [0x0053, 0x0053]
      else if 0x0430 \<le> c \<and> c \<le> 0x044F then [c - 0x20]
      else if 0x0450 \<le> c \<and> c \<le> 0x045F then [c - 0x50]
      else [c])"

definition toUpperCase_basic :: "jsstring \<Rightarrow> jsstring" where
  "toUpperCase_basic s = concat (map upper_unit s)"

text \<open>An example runtime: no request ever settles and the library never throws.\<close>

definition offline :: runtime where
  "offline = \<lparr> toUpperCase = toUpperCase_basic, fetch = (\<lambda>n url. Never),
               lib_throws = (\<lambda>c p. False) \<rparr>"



text \<open>
  A network that answers every request after 120 ms with a small image, whose body
  takes 30 ms more, and an image that a user uploaded.
\<close>

definition fetched_image :: jsstring where
  "fetched_image = js ''data:image/jpeg;base64,AA''"

definition online :: runtime where
  "online = offline\<lparr> fetch := (\<lambda>n url. Settles 120
               (Response \<lparr> ok = True, blob = BlobSettles 30 (BlobData (ReaderResult fetched_image)) \<rparr>)) \<rparr>"

definition uploaded_image :: jsstring where
  "uploaded_image = js ''data:image/png;base64,BB''"










text \<open>An example deck of one slide, and a world with nothing in it yet.\<close>

definition intro_slide :: Slide where
  "intro_slide = \<lparr> title = js ''intro'', content = [js ''a'', js ''b''],
                   imageKeyword = js ''sea'', speakerNotes = None \<rparr>"

definition intro_deck :: "bool \<Rightarrow> Presentation" where
  "intro_deck images = \<lparr> mainTitle = js '' my deck'', subTitle = None,
                         slides = [intro_slide], includeImages = images \<rparr>"

definition fresh :: "Presentation \<Rightarrow> world" where
  "fresh d = \<lparr> deck = d, isExporting = False, clock = 0, requests = [], console = [],
               alerts = [], files = [] \<rparr>"

section \<open>White space and upper case\<close>

lemma sub20: "0x20 \<le> c \<Longrightarrow> unat (c - 0x20 :: unit16) = unat c - 32"
  by (simp add: unat_sub)

lemma sub50: "0x50 \<le> c \<Longrightarrow> unat (c - 0x50 :: unit16) = unat c - 80"
  by (simp add: unat_sub)

lemma ws_unat: "isWhiteSpace c \<longleftrightarrow> unat c \<in> {9,10,11,12,13,32,160,5760,8232,8233,8239,8287,12288,65279} \<or> (8192 \<le> unat c \<and> unat c \<le> 8202)"
  unfolding isWhiteSpace_def by (auto simp: word_le_nat_alt word_unat_eq_iff)

lemma upper_unit_fix:
  assumes "\<not> (97 \<le> unat d \<and> unat d \<le> 122)" "unat d \<noteq> 223" "\<not> (1072 \<le> unat d \<and> unat d \<le> 1119)"
  shows "upper_unit d = [d]"
  using assms unfolding upper_unit_def
  by (auto simp: word_le_nat_alt word_unat_eq_iff)

lemma upper_unit_stable:
  assumes "\<not> isWhiteSpace c"
  shows "upper_unit c \<noteq> [] \<and> \<not> isWhiteSpace (hd (upper_unit c)) \<and>
         \<not> isWhiteSpace (last (upper_unit c)) \<and> upper_unit (hd (upper_unit c)) = [hd (upper_unit c)]"
proof -
  consider (latin) "0x0061 \<le> c \<and> c \<le> 0x007A"
    | (sharp) "c = 0x00DF"
    | (cyr) "0x0430 \<le> c \<and> c \<le> 0x044F"
    | (cyr2) "0x0450 \<le> c \<and> c \<le> 0x045F"
    | (other) "upper_unit c = [c]"
    by atomize_elim (auto simp: upper_unit_def)
  then show ?thesis
  proof cases
    case latin
    then have u: "upper_unit c = [c - 0x20]" by (simp add: upper_unit_def)
    from latin have "0x20 \<le> c" by (simp add: word_le_nat_alt)
    then have "unat (c - 0x20) = unat c - 32" by (rule sub20)
    with latin have r: "65 \<le> unat (c - 0x20)" "unat (c - 0x20) \<le> 90"
      by (auto simp: word_le_nat_alt)
    then have "\<not> isWhiteSpace (c - 0x20)" by (simp add: ws_unat)
    moreover have "upper_unit (c - 0x20) = [c - 0x20]"
      using r by (intro upper_unit_fix) simp_all
    ultimately show ?thesis using u by simp
  next
    case sharp
    then have u: "upper_unit c = [0x0053, 0x0053]" by (simp add: upper_unit_def)
    have "\<not> isWhiteSpace (0x0053 :: unit16)" by (simp add: ws_unat)
    moreover have "upper_unit 0x0053 = [0x0053]" by (simp add: upper_unit_def)
    ultimately show ?thesis using u by simp
  next
    case cyr
    then have u: "upper_unit c = [c - 0x20]"
      by (auto simp: upper_unit_def word_le_nat_alt)
    from cyr have "0x20 \<le> c" by (simp add: word_le_nat_alt)
    then have "unat (c - 0x20) = unat c - 32" by (rule sub20)
    with cyr have r: "1040 \<le> unat (c - 0x20)" "unat (c - 0x20) \<le> 1071"
      by (auto simp: word_le_nat_alt)
    then have "\<not> isWhiteSpace (c - 0x20)" by (simp add: ws_unat)
    moreover have "upper_unit (c - 0x20) = [c - 0x20]"
      using r by (intro upper_unit_fix) simp_all
    ultimately show ?thesis using u by simp
  next
    case cyr2
    then have u: "upper_unit c = [c - 0x50]"
      by (auto simp: upper_unit_def word_le_nat_alt)
    from cyr2 have "0x50 \<le> c" by (simp add: word_le_nat_alt)
    then have "unat (c - 0x50) = unat c - 80" by (rule sub50)
    with cyr2 have r: "1024 \<le> unat (c - 0x50)" "unat (c - 0x50) \<le> 1039"
      by (auto simp: word_le_nat_alt)
    then have "\<not> isWhiteSpace (c - 0x50)" by (simp add: ws_unat)
    moreover have "upper_unit (c - 0x50) = [c - 0x50]"
      using r by (intro upper_unit_fix) simp_all
    ultimately show ?thesis using u by simp
  next
    case other
    with assms show ?thesis by simp
  qed
qed

lemma trim_Nil: "trim [] = []"
  by (simp add: trim_def)


lemma trim_ends:
  assumes "trim s \<noteq> []"
  shows "\<not> isWhiteSpace (hd (trim s)) \<and> \<not> isWhiteSpace (last (trim s))"
proof -
  let ?d = "dropWhile isWhiteSpace s"
  let ?e = "dropWhile isWhiteSpace (rev ?d)"
  from assms have e: "?e \<noteq> []" by (simp add: trim_def)
  then have l: "\<not> isWhiteSpace (hd ?e)" by (rule hd_dropWhile)
  have d: "?d \<noteq> []"
  proof
    assume "?d = []"
    then have "?e = []" by (simp only: rev.simps dropWhile.simps)
    with e show False by contradiction
  qed
  then have hd_d: "\<not> isWhiteSpace (hd ?d)" by (rule hd_dropWhile)
  have "last ?e = last (rev ?d)" using e
    by (metis last_appendR takeWhile_dropWhile_id)
  then have "last ?e = hd ?d" using d by (simp add: last_rev)
  with hd_d l e show ?thesis
    by (simp add: trim_def hd_rev last_rev)
qed

lemma trim_noop:
  assumes "s \<noteq> []" "\<not> isWhiteSpace (hd s)" "\<not> isWhiteSpace (last s)"
  shows "trim s = s"
proof -
  from assms have a: "dropWhile isWhiteSpace s = s"
    by (cases s) simp_all
  from assms have "dropWhile isWhiteSpace (rev s) = rev s"
    by (cases "rev s") (simp_all add: last_rev hd_rev[symmetric])
  with a show ?thesis by (simp add: trim_def)
qed


lemma sanitizeText_cases:
  "sanitizeText rt s = (case trim s of [] \<Rightarrow> [] | c # cs \<Rightarrow> toUpperCase rt [c] @ cs)"
  by (cases "trim s") (auto simp: sanitizeText_def charAt_def slice_def Let_def trim_Nil)


lemma upper_stable_offline: "upper_stable offline"
  unfolding upper_stable_def offline_def toUpperCase_basic_def Let_def
  using upper_unit_stable by simp

text \<open>
  Claim C5. Sanitizing is idempotent: \<open>sanitizeText (sanitizeText s) = sanitizeText s\<close>
  for every string \<open>s\<close>, on every engine whose upper-case table is stable in the sense
  of \<open>upper_stable\<close>.
\<close>

theorem sanitizeText_idempotent:
  assumes "upper_stable rt"
  shows "sanitizeText rt (sanitizeText rt s) = sanitizeText rt s"
proof (cases "trim s")
  case Nil
  then show ?thesis by (simp add: sanitizeText_cases trim_Nil)
next
  case (Cons c cs)
  then have ne: "trim s \<noteq> []" by simp
  from trim_ends[OF ne] Cons have c: "\<not> isWhiteSpace c" and l: "\<not> isWhiteSpace (last (c # cs))"
    by simp_all
  define u where "u = toUpperCase rt [c]"
  from assms c have u: "u \<noteq> []" "\<not> isWhiteSpace (hd u)" "\<not> isWhiteSpace (last u)"
    "toUpperCase rt [hd u] = [hd u]"
    unfolding upper_stable_def u_def by (simp_all add: Let_def)
  have r: "sanitizeText rt s = u @ cs" using Cons by (simp add: sanitizeText_cases u_def)
  have "trim (u @ cs) = u @ cs"
  proof (rule trim_noop)
    show "u @ cs \<noteq> []" using u by simp
    show "\<not> isWhiteSpace (hd (u @ cs))" using u by simp
    show "\<not> isWhiteSpace (last (u @ cs))" using u l by (cases cs) simp_all
  qed
  moreover obtain a as where "u = a # as" using u by (cases u) auto
  ultimately have "sanitizeText rt (u @ cs) = u @ cs" using u
    by (simp add: sanitizeText_cases)
  with r show ?thesis by simp
qed

theorem sanitizeText_idempotent_witness:
  "upper_stable offline \<and>
   sanitizeText offline (sanitizeText offline (js ''  hi '')) = sanitizeText offline (js ''  hi '') \<and>
   sanitizeText offline (js ''  hi '') = js ''Hi''"
proof -
  have v: "sanitizeText offline (js ''  hi '') = js ''Hi''"
    by (simp add: sanitizeText_def trim_def isWhiteSpace_def charAt_def slice_def js_def
        offline_def toUpperCase_basic_def upper_unit_def)
  show ?thesis
    using upper_stable_offline sanitizeText_idempotent [OF upper_stable_offline, of "js ''  hi ''"] v
    by simp
qed






section \<open>The pages of the document\<close>

lemma lib_Inr: "lib rt c f p = Inr p' \<Longrightarrow> p' = f p"
  by (simp add: lib_def split: if_splits)


lemma lib_builds: "builds rt \<Longrightarrow> c \<noteq> WriteFile \<Longrightarrow> lib rt c f p = Inr (f p)"
  by (simp add: lib_def builds_def)

lemma no_throw_builds: "no_throw rt \<Longrightarrow> builds rt"
  by (simp add: no_throw_def builds_def)

lemma and_then_Inr: "and_then m f = Inr v \<Longrightarrow> \<exists>u. m = Inr u \<and> f u = Inr v"
  by (cases m) (simp_all add: and_then_def)


lemma add_element_last:
  "pages p = xs @ [pg] \<Longrightarrow> add_element (length xs) e p = p\<lparr> pages := xs @ [pg\<lparr> elements := elements pg @ [e] \<rparr>] \<rparr>"
  by (simp add: add_element_def on_page_def)

lemma slide_text_Inr:
  assumes "slide_text rt theme h slide p = Inr p1"
  shows "p1 = p\<lparr> pages := pages p @ [text_page rt theme h slide] \<rparr>"
proof -
  from assms obtain a b c where
    a: "lib rt AddSlide (addSlide MASTER_SLIDE) p = Inr a" and
    b: "lib rt AddText (add_element (length (pages p))
                  (TextBox (sanitizeText rt (title slide)) (slide_title_options theme))) a = Inr b" and
    c: "lib rt AddShape (add_element (length (pages p))
                  (Shape (js ''line'') (Box (Pct 5) (Pct 21) (Pct 90) (Num 0)) (hex_accent (hex theme)) 2)) b = Inr c" and
    d: "lib rt AddText (add_element (length (pages p)) (BulletBox (map (\<lambda>point. BulletItem (sanitizeText rt point) True 0 10) (content slide)) (bullet_options theme h))) c = Inr p1"
    unfolding slide_text_def Let_def by (blast dest: and_then_Inr)
  from a have a': "a = p\<lparr> pages := pages p @ [\<lparr> masterName = MASTER_SLIDE, elements = [], page_notes = None \<rparr>] \<rparr>"
    by (auto dest: lib_Inr simp: addSlide_def)
  from b a' have b': "b = p\<lparr> pages := pages p @ [\<lparr> masterName = MASTER_SLIDE, elements = [TextBox (sanitizeText rt (title slide)) (slide_title_options theme)], page_notes = None \<rparr>] \<rparr>"
    by (auto dest!: lib_Inr simp: add_element_last)
  from c b' have c': "c = p\<lparr> pages := pages p @ [\<lparr> masterName = MASTER_SLIDE, elements = [TextBox (sanitizeText rt (title slide)) (slide_title_options theme), Shape (js ''line'') (Box (Pct 5) (Pct 21) (Pct 90) (Num 0)) (hex_accent (hex theme)) 2], page_notes = None \<rparr>] \<rparr>"
    by (auto dest!: lib_Inr simp: add_element_last)
  from d c' show ?thesis
    by (auto dest!: lib_Inr simp: add_element_last text_page_def)
qed


lemma slide_text_builds: "builds rt \<Longrightarrow> \<exists>p1. slide_text rt theme h slide p = Inr p1"
  unfolding slide_text_def Let_def by (simp add: lib_builds and_then_def)


lemma getBase64FromUrl_None:
  "snd (getBase64FromUrl rt url w) = None \<longleftrightarrow> body_stalls (fetch rt (length (requests w)) url)"
  by (cases "fetch rt (length (requests w)) url" rule: body_stalls.cases)
     (auto simp: getBase64FromUrl_def Let_def split: blob_result.splits blob_outcome.splits reader_result.splits)

lemma getBase64FromUrl_request_number:
  "length (requests w) = length (requests w') \<Longrightarrow>
     snd (getBase64FromUrl rt url w) = snd (getBase64FromUrl rt url w')"
  by (simp add: getBase64FromUrl_def Let_def
      split: fetch_result.splits fetch_outcome.splits blob_result.splits blob_outcome.splits reader_result.splits)

lemma after_refl: "after w [] w"
  by (simp add: after_def)

lemma after_trans: "after w r1 w1 \<Longrightarrow> after w1 r2 w2 \<Longrightarrow> after w (r1 @ r2) w2"
  by (auto simp: after_def)

lemma after_console: "after w reqs w' \<Longrightarrow> after w reqs (w'\<lparr> console := console w' @ logs \<rparr>)"
  by (auto simp: after_def)

lemma getBase64FromUrl_after: "after w [url] (fst (getBase64FromUrl rt url w))"
  by (simp add: getBase64FromUrl_def Let_def after_def
      split: fetch_result.splits fetch_outcome.splits blob_result.splits blob_outcome.splits reader_result.splits)

lemma slide_image_url: "js ''https://picsum.photos/seed/'' @ or_else (imageSeeds i) (imageKeyword slide) @ js ''/800/800'' = spec_image_url imageSeeds i slide"
  by (cases "imageSeeds i") (simp_all add: or_else_def spec_image_url_def)

lemma slide_image_custom:
  "truthy (customSlideImages i) \<Longrightarrow>
     slide_image rt imageSeeds customSlideImages i slide w = (w, Some (customSlideImages i))"
  by (simp add: slide_image_def)

lemma spec_image_falsy:
  "\<not> truthy custom \<Longrightarrow>
     spec_image custom r = (case r of Inr f \<Rightarrow> if f \<noteq> [] then [f] else [] | Inl e \<Rightarrow> [])"
  by (cases custom) (simp_all add: spec_image_def)

lemma slide_image_fetch:
  assumes "\<not> truthy (customSlideImages i)"
    and "slide_image rt imageSeeds customSlideImages i slide w = (w', Some img)"
  shows "\<exists>r. snd (getBase64FromUrl rt (spec_image_url imageSeeds i slide) w) = Some r \<and>
           (case img of None \<Rightarrow> [] | Some d \<Rightarrow> if d \<noteq> [] then [d] else []) =
             spec_image (customSlideImages i) r"
proof -
  obtain w1 r0 where e: "getBase64FromUrl rt (spec_image_url imageSeeds i slide) w = (w1, r0)"
    by (cases "getBase64FromUrl rt (spec_image_url imageSeeds i slide) w")
  from assms(1) have c: "(case customSlideImages i of None \<Rightarrow> [] | Some d \<Rightarrow> if d \<noteq> [] then [d] else []) = []"
    by (cases "customSlideImages i") simp_all
  show ?thesis
  proof (cases r0)
    case None
    with assms e show ?thesis by (simp add: slide_image_def Let_def slide_image_url)
  next
    case (Some v)
    show ?thesis
    proof (cases v)
      case (Inl x)
      with Some assms e have "img = customSlideImages i"
        by (simp add: slide_image_def Let_def slide_image_url)
      with c Some Inl e assms(1) show ?thesis by (simp add: spec_image_falsy)
    next
      case (Inr f)
      with Some assms e have "img = (if f \<noteq> [] then Some f else customSlideImages i)"
        by (simp add: slide_image_def Let_def slide_image_url)
      with c Some Inr e assms(1) show ?thesis by (simp add: spec_image_falsy)
    qed
  qed
qed

lemma slide_image_after:
  "after w (if truthy (customSlideImages i) then [] else [spec_image_url imageSeeds i slide])
     (fst (slide_image rt imageSeeds customSlideImages i slide w))"
proof (cases "truthy (customSlideImages i)")
  case True
  then show ?thesis by (simp add: slide_image_custom after_refl)
next
  case False
  obtain w1 r where e: "getBase64FromUrl rt (spec_image_url imageSeeds i slide) w = (w1, r)"
    by (cases "getBase64FromUrl rt (spec_image_url imageSeeds i slide) w")
  with getBase64FromUrl_after [of w "spec_image_url imageSeeds i slide" rt]
  have a: "after w [spec_image_url imageSeeds i slide] w1" by simp
  have "fst (slide_image rt imageSeeds customSlideImages i slide w) = w1 \<or>
        (\<exists>x. fst (slide_image rt imageSeeds customSlideImages i slide w) =
               w1\<lparr> console := console w1 @ [ErrorFetchingImage i x] \<rparr>)"
    using False e unfolding slide_image_def Let_def slide_image_url
    by (auto split: sum.splits option.splits)
  with a False show ?thesis by (auto intro: after_console)
qed

lemma slide_image_settles:
  assumes "truthy (customSlideImages i) \<or> \<not> body_stalls (fetch rt (length (requests w)) (spec_image_url imageSeeds i slide))"
  shows "\<exists>img. snd (slide_image rt imageSeeds customSlideImages i slide w) = Some img"
proof (cases "truthy (customSlideImages i)")
  case True
  then show ?thesis by (simp add: slide_image_custom)
next
  case False
  with assms have "snd (getBase64FromUrl rt (spec_image_url imageSeeds i slide) w) \<noteq> None"
    by (simp add: getBase64FromUrl_None)
  with False show ?thesis
    unfolding slide_image_def Let_def slide_image_url
    by (cases "getBase64FromUrl rt (spec_image_url imageSeeds i slide) w")
       (auto split: sum.splits option.splits)
qed

lemma slide_add_image_Inr:
  assumes "pages p = xs @ [pg]" and "slide_add_image rt (length xs) img p = Inr p'"
  shows "p' = p\<lparr> pages := xs @ [pg\<lparr> elements := elements pg @
           map image_element (case img of None \<Rightarrow> [] | Some d \<Rightarrow> if d \<noteq> [] then [d] else []) \<rparr>] \<rparr>"
  using assms
  by (auto simp: slide_add_image_def add_element_last split: option.splits if_splits dest!: lib_Inr)


lemma slide_notes_Inr:
  assumes "pages p = xs @ [pg]" and "slide_notes rt (length xs) slide p = Inr p'"
  shows "p' = p\<lparr> pages := xs @ [pg\<lparr> page_notes :=
           (case speakerNotes slide of None \<Rightarrow> page_notes pg
            | Some n \<Rightarrow> if n \<noteq> [] then Some (sanitizeText rt n) else page_notes pg) \<rparr>] \<rparr>"
  using assms
  by (auto simp: slide_notes_def addNotes_def on_page_def split: option.splits if_splits dest!: lib_Inr)


lemma slide_add_image_builds: "builds rt \<Longrightarrow> \<exists>p'. slide_add_image rt k img p = Inr p'"
  by (simp add: slide_add_image_def lib_builds split: option.splits)

lemma slide_notes_builds: "builds rt \<Longrightarrow> \<exists>p'. slide_notes rt k slide p = Inr p'"
  by (simp add: slide_notes_def lib_builds split: option.splits)

lemma content_slide_throws:
  "slide_text rt theme (includeImages presentation) slide p = Inl e \<Longrightarrow>
     content_slide rt presentation theme imageSeeds customSlideImages i slide (w, p) = (w, Some (Inl e))"
  by (simp add: content_slide_def Let_def)

lemma content_slide_plain:
  "slide_text rt theme (includeImages presentation) slide p = Inr p1 \<Longrightarrow> \<not> includeImages presentation \<Longrightarrow>
     content_slide rt presentation theme imageSeeds customSlideImages i slide (w, p) =
       (w, Some (slide_notes rt (length (pages p)) slide p1))"
  by (simp add: content_slide_def Let_def)

lemma content_slide_hangs:
  "slide_text rt theme (includeImages presentation) slide p = Inr p1 \<Longrightarrow> includeImages presentation \<Longrightarrow>
   slide_image rt imageSeeds customSlideImages i slide w = (w1, None) \<Longrightarrow>
     content_slide rt presentation theme imageSeeds customSlideImages i slide (w, p) = (w1, None)"
  by (simp add: content_slide_def Let_def)

lemma content_slide_image:
  "slide_text rt theme (includeImages presentation) slide p = Inr p1 \<Longrightarrow> includeImages presentation \<Longrightarrow>
   slide_image rt imageSeeds customSlideImages i slide w = (w1, Some img) \<Longrightarrow>
     content_slide rt presentation theme imageSeeds customSlideImages i slide (w, p) =
       (w1, Some (and_then (slide_add_image rt (length (pages p)) img p1)
                    (slide_notes rt (length (pages p)) slide)))"
  by (simp add: content_slide_def Let_def)

lemma content_slide_after:
  assumes "content_slide rt presentation theme imageSeeds customSlideImages i slide (w, p) = (w', r)"
  shows "\<exists>reqs. after w reqs w' \<and> (\<not> includeImages presentation \<longrightarrow> reqs = [])"
proof (cases "slide_text rt theme (includeImages presentation) slide p")
  case (Inl e)
  with assms have "w' = w" by (simp add: content_slide_throws)
  then show ?thesis using after_refl by blast
next
  case (Inr p1)
  show ?thesis
  proof (cases "includeImages presentation")
    case False
    with Inr assms have "w' = w" by (simp add: content_slide_plain)
    then show ?thesis using after_refl by blast
  next
    case True
    obtain w1 b where s: "slide_image rt imageSeeds customSlideImages i slide w = (w1, b)"
      by (cases "slide_image rt imageSeeds customSlideImages i slide w")
    with Inr True assms have "w' = w1"
      by (cases b) (simp_all add: content_slide_hangs content_slide_image)
    with s slide_image_after [of w customSlideImages i imageSeeds slide rt] True
    show ?thesis by auto
  qed
qed


lemma content_slide_Inr:
  assumes "content_slide rt presentation theme imageSeeds customSlideImages i slide (w, p) = (w', Some (Inr p'))"
  shows "\<exists>images. p' = p\<lparr> pages := pages p @ [slide_page rt theme (includeImages presentation) slide images] \<rparr> \<and>
           after w (spec_requests_from presentation imageSeeds customSlideImages i [slide]) w' \<and>
           (if includeImages presentation
            then (if truthy (customSlideImages i) then images = [the (customSlideImages i)]
                  else \<exists>r. snd (getBase64FromUrl rt (spec_image_url imageSeeds i slide) w) = Some r \<and>
                         images = spec_image (customSlideImages i) r)
            else images = [])"
proof -
  let ?h = "includeImages presentation"
  let ?tp = "text_page rt theme ?h slide"
  from assms obtain p1 where t: "slide_text rt theme ?h slide p = Inr p1"
    by (cases "slide_text rt theme ?h slide p") (simp_all add: content_slide_throws)
  then have p1: "p1 = p\<lparr> pages := pages p @ [?tp] \<rparr>" by (rule slide_text_Inr)
  then have pg1: "pages p1 = pages p @ [?tp]" by simp
  have fin: "q = p\<lparr> pages := pages p @ [slide_page rt theme ?h slide images] \<rparr>"
    if a: "p2 = p1\<lparr> pages := pages p @ [?tp\<lparr> elements := elements ?tp @ map image_element images \<rparr>] \<rparr>"
      and n: "slide_notes rt (length (pages p)) slide p2 = Inr q" for p2 q images
  proof -
    from a have "pages p2 = pages p @ [?tp\<lparr> elements := elements ?tp @ map image_element images \<rparr>]"
      by simp
    from slide_notes_Inr [OF this n] a p1 show ?thesis
      by (simp add: slide_page_def text_page_def split: option.splits)
  qed
  show ?thesis
  proof (cases ?h)
    case False
    with t assms have n: "slide_notes rt (length (pages p)) slide p1 = Inr p'" and w: "w' = w"
      by (simp_all add: content_slide_plain)
    have "p1 = p1\<lparr> pages := pages p @ [?tp\<lparr> elements := elements ?tp @ map image_element [] \<rparr>] \<rparr>"
      using p1 by simp
    from fin [OF this n] False w show ?thesis by (auto simp: after_refl)
  next
    case True
    obtain w1 b where s: "slide_image rt imageSeeds customSlideImages i slide w = (w1, b)"
      by (cases "slide_image rt imageSeeds customSlideImages i slide w")
    with t True assms obtain img where b: "b = Some img"
      by (cases b) (simp_all add: content_slide_hangs)
    with s t True assms have w: "w' = w1" and
      e: "and_then (slide_add_image rt (length (pages p)) img p1) (slide_notes rt (length (pages p)) slide) = Inr p'"
      by (simp_all add: content_slide_image)
    from e obtain p2 where i2: "slide_add_image rt (length (pages p)) img p1 = Inr p2"
      and n: "slide_notes rt (length (pages p)) slide p2 = Inr p'"
      by (blast dest: and_then_Inr)
    let ?images = "case img of None \<Rightarrow> [] | Some d \<Rightarrow> if d \<noteq> [] then [d] else []"
    from slide_add_image_Inr [OF pg1 i2]
    have "p2 = p1\<lparr> pages := pages p @ [?tp\<lparr> elements := elements ?tp @ map image_element ?images \<rparr>] \<rparr>" .
    from fin [OF this n] have pg: "p' = p\<lparr> pages := pages p @ [slide_page rt theme ?h slide ?images] \<rparr>" .
    from s w slide_image_after [of w customSlideImages i imageSeeds slide rt] True
    have af: "after w (spec_requests_from presentation imageSeeds customSlideImages i [slide]) w'"
      by auto
    have im: "if truthy (customSlideImages i) then ?images = [the (customSlideImages i)]
          else \<exists>r. snd (getBase64FromUrl rt (spec_image_url imageSeeds i slide) w) = Some r \<and>
                 ?images = spec_image (customSlideImages i) r"
    proof (cases "truthy (customSlideImages i)")
      case True
      with s b have "img = customSlideImages i" by (simp add: slide_image_custom)
      with True show ?thesis by (cases "customSlideImages i") simp_all
    next
      case False
      with slide_image_fetch [where customSlideImages = customSlideImages and i = i and rt = rt
          and imageSeeds = imageSeeds and slide = slide and w = w and w' = w1 and img = img] s b
      show ?thesis by simp
    qed
    have "p' = p\<lparr> pages := pages p @ [slide_page rt theme ?h slide ?images] \<rparr> \<and>
           after w (spec_requests_from presentation imageSeeds customSlideImages i [slide]) w' \<and>
           (if ?h
            then (if truthy (customSlideImages i) then ?images = [the (customSlideImages i)]
                  else \<exists>r. snd (getBase64FromUrl rt (spec_image_url imageSeeds i slide) w) = Some r \<and>
                         ?images = spec_image (customSlideImages i) r)
            else ?images = [])"
      using pg af True im by simp
    then show ?thesis by (rule exI [where x = ?images])
  qed
qed

lemma content_slide_rendered:
  assumes "content_slide rt presentation theme imageSeeds customSlideImages i slide (w, p) = (w', Some (Inr p'))"
  shows "\<exists>pg. p' = p\<lparr> pages := pages p @ [pg] \<rparr> \<and>
           after w (spec_requests_from presentation imageSeeds customSlideImages i [slide]) w' \<and>
           rendered rt presentation theme imageSeeds customSlideImages (length (requests w)) i slide pg"
proof -
  from content_slide_Inr [OF assms] obtain images where
    i: "p' = p\<lparr> pages := pages p @ [slide_page rt theme (includeImages presentation) slide images] \<rparr>"
       "after w (spec_requests_from presentation imageSeeds customSlideImages i [slide]) w'"
       "if includeImages presentation
            then (if truthy (customSlideImages i) then images = [the (customSlideImages i)]
                  else \<exists>r. snd (getBase64FromUrl rt (spec_image_url imageSeeds i slide) w) = Some r \<and>
                         images = spec_image (customSlideImages i) r)
            else images = []"
    by blast
  from i(3) have "rendered rt presentation theme imageSeeds customSlideImages (length (requests w)) i slide
      (slide_page rt theme (includeImages presentation) slide images)"
    unfolding rendered_def
    by (cases "includeImages presentation"; cases "truthy (customSlideImages i)") auto
  with i(1,2) show ?thesis by blast
qed

lemma content_slide_builds:
  assumes "builds rt" and "includeImages presentation \<longrightarrow> responsive rt"
  shows "\<exists>p'. snd (content_slide rt presentation theme imageSeeds customSlideImages i slide (w, p)) = Some (Inr p')"
proof -
  obtain p1 where t: "slide_text rt theme (includeImages presentation) slide p = Inr p1"
    using slide_text_builds [OF assms(1)] by blast
  show ?thesis
  proof (cases "includeImages presentation")
    case False
    with t slide_notes_builds [OF assms(1), of "length (pages p)" slide p1] show ?thesis
      by (auto simp: content_slide_plain)
  next
    case True
    with assms(2) have "\<not> body_stalls (fetch rt (length (requests w)) (spec_image_url imageSeeds i slide))"
      by (simp add: responsive_def)
    then obtain img where "snd (slide_image rt imageSeeds customSlideImages i slide w) = Some img"
      using slide_image_settles by blast
    then obtain w1 where s: "slide_image rt imageSeeds customSlideImages i slide w = (w1, Some img)"
      by (cases "slide_image rt imageSeeds customSlideImages i slide w") simp
    obtain p2 where "slide_add_image rt (length (pages p)) img p1 = Inr p2"
      using slide_add_image_builds [OF assms(1)] by blast
    moreover obtain p3 where "slide_notes rt (length (pages p)) slide p2 = Inr p3"
      using slide_notes_builds [OF assms(1)] by blast
    ultimately show ?thesis using t True s
      by (simp add: content_slide_image and_then_def)
  qed
qed

lemma content_slides_Inr:
  "content_slides rt presentation theme imageSeeds customSlideImages i ss (w, p) = (w', Some (Inr p')) \<Longrightarrow>
     \<exists>pgs. p' = p\<lparr> pages := pages p @ pgs \<rparr> \<and> length pgs = length ss \<and>
       after w (spec_requests_from presentation imageSeeds customSlideImages i ss) w' \<and>
       (\<forall>j<length ss. rendered rt presentation theme imageSeeds customSlideImages
            (length (requests w) +
             length (spec_requests_from presentation imageSeeds customSlideImages i (take j ss)))
            (i + j) (ss ! j) (pgs ! j))"
proof (induction ss arbitrary: i w p)
  case Nil
  then show ?case by (simp add: after_refl)
next
  case (Cons slide rest)
  obtain w1 r1 where c: "content_slide rt presentation theme imageSeeds customSlideImages i slide (w, p) = (w1, r1)"
    by (cases "content_slide rt presentation theme imageSeeds customSlideImages i slide (w, p)")
  with Cons.prems obtain p1 where
    one: "content_slide rt presentation theme imageSeeds customSlideImages i slide (w, p) = (w1, Some (Inr p1))" and
    more: "content_slides rt presentation theme imageSeeds customSlideImages (Suc i) rest (w1, p1) = (w', Some (Inr p'))"
    by (cases r1) (auto split: sum.splits)
  from content_slide_rendered [OF one] obtain pg where
    pg: "p1 = p\<lparr> pages := pages p @ [pg] \<rparr>"
        "after w (spec_requests_from presentation imageSeeds customSlideImages i [slide]) w1"
        "rendered rt presentation theme imageSeeds customSlideImages (length (requests w)) i slide pg"
    by blast
  from Cons.IH [OF more] obtain pgs where
    pgs: "p' = p1\<lparr> pages := pages p1 @ pgs \<rparr>" "length pgs = length rest"
         "after w1 (spec_requests_from presentation imageSeeds customSlideImages (Suc i) rest) w'"
         "\<forall>j<length rest. rendered rt presentation theme imageSeeds customSlideImages
            (length (requests w1) +
             length (spec_requests_from presentation imageSeeds customSlideImages (Suc i) (take j rest)))
            (Suc i + j) (rest ! j) (pgs ! j)"
    by blast
  from pg(2) have n1: "length (requests w1) =
      length (requests w) + length (spec_requests_from presentation imageSeeds customSlideImages i [slide])"
    by (simp add: after_def)
  have "p' = p\<lparr> pages := pages p @ (pg # pgs) \<rparr>" using pg(1) pgs(1) by simp
  moreover have "length (pg # pgs) = length (slide # rest)" using pgs(2) by simp
  moreover have "after w (spec_requests_from presentation imageSeeds customSlideImages i (slide # rest)) w'"
    using after_trans [OF pg(2) pgs(3)] by simp
  moreover have "rendered rt presentation theme imageSeeds customSlideImages
            (length (requests w) +
             length (spec_requests_from presentation imageSeeds customSlideImages i (take j (slide # rest))))
            (i + j) ((slide # rest) ! j) ((pg # pgs) ! j)"
    if "j < length (slide # rest)" for j
  proof (cases j)
    case 0
    with pg(3) show ?thesis by simp
  next
    case (Suc k)
    with that pgs(4) have "rendered rt presentation theme imageSeeds customSlideImages
            (length (requests w1) +
             length (spec_requests_from presentation imageSeeds customSlideImages (Suc i) (take k rest)))
            (Suc i + k) (rest ! k) (pgs ! k)"
      by simp
    with Suc n1 show ?thesis by (simp add: add.assoc)
  qed
  ultimately show ?case by blast
qed


lemma content_slides_after:
  "content_slides rt presentation theme imageSeeds customSlideImages i ss (w, p) = (w', r) \<Longrightarrow>
     \<exists>reqs. after w reqs w' \<and> (\<not> includeImages presentation \<longrightarrow> reqs = [])"
proof (induction ss arbitrary: i w p)
  case Nil
  then have "w' = w" by simp
  then show ?case using after_refl by blast
next
  case (Cons slide rest)
  obtain w1 r1 where one: "content_slide rt presentation theme imageSeeds customSlideImages i slide (w, p) = (w1, r1)"
    by (cases "content_slide rt presentation theme imageSeeds customSlideImages i slide (w, p)")
  from content_slide_after [OF one] obtain reqs where
    f1: "after w reqs w1" "\<not> includeImages presentation \<longrightarrow> reqs = []"
    by blast
  show ?case
  proof (cases "\<exists>p1. r1 = Some (Inr p1)")
    case False
    with one Cons.prems have "w' = w1"
      by (cases r1) (auto split: sum.splits)
    with f1 show ?thesis by blast
  next
    case True
    then obtain p1 where "r1 = Some (Inr p1)" by blast
    with one Cons.prems have
      "content_slides rt presentation theme imageSeeds customSlideImages (Suc i) rest (w1, p1) = (w', r)"
      by simp
    from Cons.IH [OF this] obtain reqs' where
      f2: "after w1 reqs' w'" "\<not> includeImages presentation \<longrightarrow> reqs' = []"
      by blast
    from after_trans [OF f1(1) f2(1)] f1(2) f2(2) show ?thesis by auto
  qed
qed

lemma content_slides_builds:
  assumes "builds rt" and "includeImages presentation \<longrightarrow> responsive rt"
  shows "\<exists>p'. snd (content_slides rt presentation theme imageSeeds customSlideImages i ss (w, p)) = Some (Inr p')"
proof (induction ss arbitrary: i w p)
  case Nil
  show ?case by simp
next
  case (Cons slide rest)
  obtain w1 r1 where one: "content_slide rt presentation theme imageSeeds customSlideImages i slide (w, p) = (w1, r1)"
    by (cases "content_slide rt presentation theme imageSeeds customSlideImages i slide (w, p)")
  with content_slide_builds [OF assms, of theme imageSeeds customSlideImages i slide w p]
  obtain p1 where "r1 = Some (Inr p1)" by auto
  with one Cons.IH [of "Suc i" w1 p1] show ?case by simp
qed

lemma cover_slide_Inr:
  assumes "cover_slide rt presentation theme p = Inr p'"
  shows "p' = p\<lparr> pages := pages p @ [cover_page rt presentation theme] \<rparr>"
proof -
  from assms obtain a b where
    a: "lib rt AddSlide (addSlide MASTER_SLIDE) p = Inr a" and
    b: "lib rt AddText (add_element (length (pages p))
          (TextBox (sanitizeText rt (mainTitle presentation)) (cover_title_options theme))) a = Inr b" and
    c: "(case subTitle presentation of None \<Rightarrow> Inr b
         | Some sub \<Rightarrow> if sub \<noteq> []
             then lib rt AddText (add_element (length (pages p))
                    (TextBox (sanitizeText rt sub) (cover_subtitle_options theme))) b
             else Inr b) = Inr p'"
    unfolding cover_slide_def Let_def by (blast dest: and_then_Inr)
  from a have a': "a = p\<lparr> pages := pages p @ [\<lparr> masterName = MASTER_SLIDE, elements = [], page_notes = None \<rparr>] \<rparr>"
    by (auto dest: lib_Inr simp: addSlide_def)
  from b a' have b': "b = p\<lparr> pages := pages p @ [\<lparr> masterName = MASTER_SLIDE,
      elements = [TextBox (sanitizeText rt (mainTitle presentation)) (cover_title_options theme)],
      page_notes = None \<rparr>] \<rparr>"
    by (auto dest!: lib_Inr simp: add_element_last)
  from c show ?thesis unfolding b'
    by (auto split: option.splits if_splits dest!: lib_Inr simp: add_element_last cover_page_def)
qed


lemma cover_slide_builds: "builds rt \<Longrightarrow> \<exists>p'. cover_slide rt presentation theme p = Inr p'"
  unfolding cover_slide_def Let_def
  by (simp add: lib_builds and_then_def split: option.splits)

lemma assemble_cover_throws:
  assumes "and_then (lib rt DefineSlideMaster (defineSlideMaster (master_slide theme backgroundImage))
             (new_pres\<lparr> pres_title := mainTitle presentation, pres_author := js ''FlowerSlide AI'' \<rparr>))
             (cover_slide rt presentation theme) = Inl e"
  shows "assemble rt presentation theme imageSeeds backgroundImage customSlideImages w = (w, Some (Inl e))"
  using assms by (simp add: assemble_def)

lemma assemble_loop:
  assumes "and_then (lib rt DefineSlideMaster (defineSlideMaster (master_slide theme backgroundImage))
             (new_pres\<lparr> pres_title := mainTitle presentation, pres_author := js ''FlowerSlide AI'' \<rparr>))
             (cover_slide rt presentation theme) = Inr p1"
  shows "assemble rt presentation theme imageSeeds backgroundImage customSlideImages w =
           content_slides rt presentation theme imageSeeds customSlideImages 0 (slides presentation) (w, p1)"
  using assms by (simp add: assemble_def)

lemma assemble_Inr:
  assumes "assemble rt presentation theme imageSeeds backgroundImage customSlideImages w = (w', Some (Inr doc))"
  shows "\<exists>pgs. doc = \<lparr> pres_title = mainTitle presentation, pres_author = js ''FlowerSlide AI'',
                        masters = [master_slide theme backgroundImage],
                        pages = cover_page rt presentation theme # pgs \<rparr> \<and>
           length pgs = length (slides presentation) \<and>
           after w (spec_requests presentation imageSeeds customSlideImages) w' \<and>
           (\<forall>j<length (slides presentation).
              rendered rt presentation theme imageSeeds customSlideImages
                (length (requests w) + fetches_before presentation imageSeeds customSlideImages j)
                j (slides presentation ! j) (pgs ! j))"
proof -
  let ?p0 = "new_pres\<lparr> pres_title := mainTitle presentation, pres_author := js ''FlowerSlide AI'' \<rparr>"
  let ?h = "and_then (lib rt DefineSlideMaster (defineSlideMaster (master_slide theme backgroundImage)) ?p0)
          (cover_slide rt presentation theme)"
  from assms obtain p1 where h: "?h = Inr p1"
    by (cases ?h) (simp_all add: assemble_cover_throws)
  with assms have
    l: "content_slides rt presentation theme imageSeeds customSlideImages 0 (slides presentation) (w, p1) = (w', Some (Inr doc))"
    by (simp add: assemble_loop)
  from h obtain m where
    m: "lib rt DefineSlideMaster (defineSlideMaster (master_slide theme backgroundImage)) ?p0 = Inr m" and
    c: "cover_slide rt presentation theme m = Inr p1"
    by (blast dest: and_then_Inr)
  from m have "m = \<lparr> pres_title = mainTitle presentation, pres_author = js ''FlowerSlide AI'',
                        masters = [master_slide theme backgroundImage], pages = [] \<rparr>"
    by (auto dest!: lib_Inr simp: defineSlideMaster_def new_pres_def)
  with cover_slide_Inr [OF c] have p1: "p1 = \<lparr> pres_title = mainTitle presentation,
      pres_author = js ''FlowerSlide AI'', masters = [master_slide theme backgroundImage],
      pages = [cover_page rt presentation theme] \<rparr>"
    by simp
  from content_slides_Inr [OF l] obtain pgs where
    "doc = p1\<lparr> pages := pages p1 @ pgs \<rparr>" "length pgs = length (slides presentation)"
    "after w (spec_requests_from presentation imageSeeds customSlideImages 0 (slides presentation)) w'"
    "\<forall>j<length (slides presentation).
        rendered rt presentation theme imageSeeds customSlideImages
          (length (requests w) +
           length (spec_requests_from presentation imageSeeds customSlideImages 0 (take j (slides presentation))))
          (0 + j) (slides presentation ! j) (pgs ! j)"
    by blast
  with p1 show ?thesis by (simp add: spec_requests_def fetches_before_def)
qed


lemma assemble_after:
  assumes "assemble rt presentation theme imageSeeds backgroundImage customSlideImages w = (w', r)"
  shows "\<exists>reqs. after w reqs w' \<and> (\<not> includeImages presentation \<longrightarrow> reqs = [])"
proof -
  let ?p0 = "new_pres\<lparr> pres_title := mainTitle presentation, pres_author := js ''FlowerSlide AI'' \<rparr>"
  let ?h = "and_then (lib rt DefineSlideMaster (defineSlideMaster (master_slide theme backgroundImage)) ?p0)
          (cover_slide rt presentation theme)"
  show ?thesis
  proof (cases ?h)
    case (Inl e)
    with assms have "w' = w" by (simp add: assemble_cover_throws)
    then show ?thesis using after_refl by blast
  next
    case (Inr p1)
    with assms have "content_slides rt presentation theme imageSeeds customSlideImages 0 (slides presentation) (w, p1) = (w', r)"
      by (simp add: assemble_loop)
    then show ?thesis by (rule content_slides_after)
  qed
qed

lemma assemble_builds:
  assumes "builds rt" and "includeImages presentation \<longrightarrow> responsive rt"
  shows "\<exists>doc. snd (assemble rt presentation theme imageSeeds backgroundImage customSlideImages w) = Some (Inr doc)"
proof -
  let ?p0 = "new_pres\<lparr> pres_title := mainTitle presentation, pres_author := js ''FlowerSlide AI'' \<rparr>"
  obtain p1 where "cover_slide rt presentation theme (defineSlideMaster (master_slide theme backgroundImage) ?p0) = Inr p1"
    using cover_slide_builds [OF assms(1)] by blast
  then have "and_then (lib rt DefineSlideMaster (defineSlideMaster (master_slide theme backgroundImage)) ?p0)
          (cover_slide rt presentation theme) = Inr p1"
    by (simp add: lib_builds [OF assms(1)] and_then_def)
  then show ?thesis
    using content_slides_builds [OF assms, of theme imageSeeds customSlideImages 0 "slides presentation" w p1]
    by (simp add: assemble_loop)
qed

lemma write_step_files:
  "files (write_step rt presentation p w) =
     (if lib_throws rt WriteFile p then files w else files w @ [(fileName presentation, p)])"
  by (simp add: write_step_def)

lemma downloadPPTX_hangs:
  "assemble rt presentation theme imageSeeds backgroundImage customSlideImages w = (w1, None) \<Longrightarrow>
     downloadPPTX rt presentation theme imageSeeds backgroundImage customSlideImages w = (w1, None)"
  by (simp add: downloadPPTX_def)

lemma downloadPPTX_rejects:
  "assemble rt presentation theme imageSeeds backgroundImage customSlideImages w = (w1, Some (Inl e)) \<Longrightarrow>
     downloadPPTX rt presentation theme imageSeeds backgroundImage customSlideImages w = (w1, Some (Inl e))"
  by (simp add: downloadPPTX_def)

lemma downloadPPTX_writes:
  "assemble rt presentation theme imageSeeds backgroundImage customSlideImages w = (w1, Some (Inr doc)) \<Longrightarrow>
     downloadPPTX rt presentation theme imageSeeds backgroundImage customSlideImages w =
       (write_step rt presentation doc w1, Some (Inr ()))"
  by (simp add: downloadPPTX_def)

lemma downloadPPTX_cases:
  obtains (hangs) w1 where
      "assemble rt presentation theme imageSeeds backgroundImage customSlideImages w = (w1, None)"
      "downloadPPTX rt presentation theme imageSeeds backgroundImage customSlideImages w = (w1, None)"
    | (rejects) w1 e where
      "assemble rt presentation theme imageSeeds backgroundImage customSlideImages w = (w1, Some (Inl e))"
      "downloadPPTX rt presentation theme imageSeeds backgroundImage customSlideImages w = (w1, Some (Inl e))"
    | (writes) w1 doc where
      "assemble rt presentation theme imageSeeds backgroundImage customSlideImages w = (w1, Some (Inr doc))"
      "downloadPPTX rt presentation theme imageSeeds backgroundImage customSlideImages w =
         (write_step rt presentation doc w1, Some (Inr ()))"
proof -
  obtain w1 r where a: "assemble rt presentation theme imageSeeds backgroundImage customSlideImages w = (w1, r)"
    by (cases "assemble rt presentation theme imageSeeds backgroundImage customSlideImages w")
  show ?thesis
  proof (cases r)
    case None
    with a have 1: "assemble rt presentation theme imageSeeds backgroundImage customSlideImages w = (w1, None)"
      by simp
    from 1 downloadPPTX_hangs [OF 1] show ?thesis by (rule hangs)
  next
    case (Some v)
    show ?thesis
    proof (cases v)
      case (Inl e)
      with Some a have 1: "assemble rt presentation theme imageSeeds backgroundImage customSlideImages w = (w1, Some (Inl e))"
        by simp
      from 1 downloadPPTX_rejects [OF 1] show ?thesis by (rule rejects)
    next
      case (Inr doc)
      with Some a have 1: "assemble rt presentation theme imageSeeds backgroundImage customSlideImages w = (w1, Some (Inr doc))"
        by simp
      from 1 downloadPPTX_writes [OF 1] show ?thesis by (rule writes)
    qed
  qed
qed

lemma downloadPPTX_files:
  assumes "files (fst (downloadPPTX rt presentation theme imageSeeds backgroundImage customSlideImages w)) = files w @ [(fn, doc)]"
  shows "\<exists>w1. assemble rt presentation theme imageSeeds backgroundImage customSlideImages w = (w1, Some (Inr doc)) \<and>
           fn = fileName presentation \<and> \<not> lib_throws rt WriteFile doc \<and>
           requests (fst (downloadPPTX rt presentation theme imageSeeds backgroundImage customSlideImages w)) = requests w1"
proof (cases rule: downloadPPTX_cases [of rt presentation theme imageSeeds backgroundImage customSlideImages w])
  case (hangs w1)
  from assemble_after [OF hangs(1)] have "files w1 = files w" by (auto simp: after_def)
  with hangs(2) assms show ?thesis by simp
next
  case (rejects w1 e)
  from assemble_after [OF rejects(1)] have "files w1 = files w" by (auto simp: after_def)
  with rejects(2) assms show ?thesis by simp
next
  case (writes w1 d)
  from assemble_after [OF writes(1)] have "files w1 = files w" by (auto simp: after_def)
  with writes assms show ?thesis
    by (cases "lib_throws rt WriteFile d") (simp_all add: write_step_def)
qed

lemma downloadPPTX_no_throw:
  assumes "no_throw rt" and "includeImages presentation \<longrightarrow> responsive rt"
  shows "\<exists>doc. files (fst (downloadPPTX rt presentation theme imageSeeds backgroundImage customSlideImages w)) =
           files w @ [(fileName presentation, doc)] \<and>
         snd (downloadPPTX rt presentation theme imageSeeds backgroundImage customSlideImages w) = Some (Inr ())"
proof -
  obtain w1 r where a: "assemble rt presentation theme imageSeeds backgroundImage customSlideImages w = (w1, r)"
    by (cases "assemble rt presentation theme imageSeeds backgroundImage customSlideImages w")
  from assemble_after [OF a] have f: "files w1 = files w" by (auto simp: after_def)
  from assemble_builds [OF no_throw_builds [OF assms(1)] assms(2), of theme imageSeeds backgroundImage customSlideImages w] a
  obtain doc where "r = Some (Inr doc)" by auto
  with a f assms(1) show ?thesis
    by (simp add: downloadPPTX_writes write_step_def no_throw_def)
qed


lemma no_throw_offline: "no_throw offline"
  by (simp add: no_throw_def offline_def)

lemma no_throw_online: "no_throw online"
  by (simp add: no_throw_def online_def offline_def)

lemma responsive_offline: "responsive offline"
  by (simp add: responsive_def offline_def)

lemma responsive_online: "responsive online"
  by (simp add: responsive_def online_def offline_def timeout_ms_def)

lemma getBase64FromUrl_online: "snd (getBase64FromUrl online url w) = Some (Inr fetched_image)"
  by (simp add: getBase64FromUrl_def online_def offline_def timeout_ms_def fetched_image_def
      startsWith_def js_def)

lemma page_images_slide_page: "page_images (slide_page rt theme h slide images) = images"
  by (induction images) (simp_all add: page_images_def slide_page_def text_page_def image_element_def)

lemma page_shapes_slide_page: "page_shapes (slide_page rt theme h slide images) = [js ''line'']"
  by (induction images) (simp_all add: page_shapes_def slide_page_def text_page_def image_element_def)

lemma page_title_slide_page: "page_title (slide_page rt theme h slide images) = Some (sanitizeText rt (title slide))"
  by (simp add: page_title_def slide_page_def text_page_def)

lemma masterName_slide_page: "masterName (slide_page rt theme h slide images) = MASTER_SLIDE"
  by (simp add: slide_page_def text_page_def)

lemma spec_requests_from_append:
  "spec_requests_from presentation imageSeeds customSlideImages i (xs @ ys) =
     spec_requests_from presentation imageSeeds customSlideImages i xs @
     spec_requests_from presentation imageSeeds customSlideImages (i + length xs) ys"
  by (induction xs arbitrary: i) simp_all

lemma spec_requests_nth:
  assumes "i < length (slides presentation)" and "includeImages presentation"
    and "\<not> truthy (customSlideImages i)"
  shows "fetches_before presentation imageSeeds customSlideImages i <
           length (spec_requests presentation imageSeeds customSlideImages) \<and>
         spec_requests presentation imageSeeds customSlideImages !
           fetches_before presentation imageSeeds customSlideImages i =
           spec_image_url imageSeeds i (slides presentation ! i)"
proof -
  let ?ss = "slides presentation"
  let ?A = "spec_requests_from presentation imageSeeds customSlideImages 0 (take i ?ss)"
  have "?ss = take i ?ss @ (?ss ! i) # drop (Suc i) ?ss"
    using assms(1) by (simp add: id_take_nth_drop)
  then have "spec_requests presentation imageSeeds customSlideImages =
      spec_requests_from presentation imageSeeds customSlideImages 0 (take i ?ss @ (?ss ! i) # drop (Suc i) ?ss)"
    by (simp add: spec_requests_def)
  also have "\<dots> = ?A @ spec_image_url imageSeeds i (?ss ! i) #
      spec_requests_from presentation imageSeeds customSlideImages (Suc i) (drop (Suc i) ?ss)"
    using assms by (simp add: spec_requests_from_append min_def)
  finally show ?thesis
    by (simp add: fetches_before_def nth_append)
qed

section \<open>The exported document\<close>

text \<open>
  Claim C3. A deck of \<open>N\<close> slides is exported as a document of \<open>N + 1\<close> pages: the
  cover first, then one page per slide in the order of the deck (the titles of the pages
  are the sanitized main title and the sanitized titles of the slides, in that order);
  a deck without slides gives the cover alone. This holds of every document that
  \<open>downloadPPTX\<close> hands to \<open>writeFile\<close>, and it is handed one when the library throws
  nowhere and, if images are included, no body of a response stalls.
\<close>

theorem export_has_cover_and_one_page_per_slide:
  "(\<forall>fn doc. files (fst (downloadPPTX rt presentation theme imageSeeds backgroundImage customSlideImages w)) = files w @ [(fn, doc)] \<longrightarrow>
      length (pages doc) = length (slides presentation) + 1 \<and>
      hd (pages doc) = cover_page rt presentation theme \<and>
      map page_title (pages doc) =
        Some (sanitizeText rt (mainTitle presentation)) #
        map (\<lambda>slide. Some (sanitizeText rt (title slide))) (slides presentation)) \<and>
   (no_throw rt \<and> (includeImages presentation \<longrightarrow> responsive rt) \<longrightarrow>
      (\<exists>doc. files (fst (downloadPPTX rt presentation theme imageSeeds backgroundImage customSlideImages w)) =
         files w @ [(fileName presentation, doc)]))"
proof (intro conjI allI impI)
  fix fn doc
  assume "files (fst (downloadPPTX rt presentation theme imageSeeds backgroundImage customSlideImages w)) = files w @ [(fn, doc)]"
  from downloadPPTX_files [OF this] obtain w1 where
    "assemble rt presentation theme imageSeeds backgroundImage customSlideImages w = (w1, Some (Inr doc))"
    by blast
  from assemble_Inr [OF this] obtain pgs where
    d: "pages doc = cover_page rt presentation theme # pgs" and
    l: "length pgs = length (slides presentation)" and
    r: "\<forall>j<length (slides presentation).
          rendered rt presentation theme imageSeeds customSlideImages
            (length (requests w) + fetches_before presentation imageSeeds customSlideImages j)
            j (slides presentation ! j) (pgs ! j)"
    by auto
  show "length (pages doc) = length (slides presentation) + 1" using d l by simp
  show "hd (pages doc) = cover_page rt presentation theme" using d by simp
  have "map page_title pgs = map (\<lambda>slide. Some (sanitizeText rt (title slide))) (slides presentation)"
  proof (rule nth_equalityI)
    show "length (map page_title pgs) = length (map (\<lambda>slide. Some (sanitizeText rt (title slide))) (slides presentation))"
      using l by simp
  next
    fix j assume "j < length (map page_title pgs)"
    then have j: "j < length (slides presentation)" using l by simp
    with r have "rendered rt presentation theme imageSeeds customSlideImages
        (length (requests w) + fetches_before presentation imageSeeds customSlideImages j)
        j (slides presentation ! j) (pgs ! j)"
      by blast
    then have "page_title (pgs ! j) = Some (sanitizeText rt (title (slides presentation ! j)))"
      by (auto simp: rendered_def page_title_slide_page)
    with j l show "map page_title pgs ! j = map (\<lambda>slide. Some (sanitizeText rt (title slide))) (slides presentation) ! j"
      by simp
  qed
  then show "map page_title (pages doc) =
        Some (sanitizeText rt (mainTitle presentation)) #
        map (\<lambda>slide. Some (sanitizeText rt (title slide))) (slides presentation)"
    using d by (simp add: page_title_def cover_page_def)
next
  assume "no_throw rt \<and> (includeImages presentation \<longrightarrow> responsive rt)"
  then have "no_throw rt" "includeImages presentation \<longrightarrow> responsive rt" by simp_all
  from downloadPPTX_no_throw [OF this]
  show "\<exists>doc. files (fst (downloadPPTX rt presentation theme imageSeeds backgroundImage customSlideImages w)) =
         files w @ [(fileName presentation, doc)]"
    by blast
qed

lemma sanitize_examples:
  "sanitizeText offline (js '' my deck'') = js ''My deck''"
  "sanitizeText offline (js ''intro'') = js ''Intro''"
  by (simp_all add: sanitizeText_def trim_def isWhiteSpace_def charAt_def slice_def js_def
        offline_def toUpperCase_basic_def upper_unit_def)

theorem export_has_cover_and_one_page_per_slide_witness:
  "no_throw offline \<and> responsive offline \<and>
   (\<exists>doc. files (fst (downloadPPTX offline (intro_deck False) clean_white (\<lambda>i. None) None (\<lambda>i. None)
              (fresh (intro_deck False)))) = [(fileName (intro_deck False), doc)] \<and>
      length (pages doc) = 2 \<and>
      map page_title (pages doc) = [Some (js ''My deck''), Some (js ''Intro'')]) \<and>
   (\<exists>doc. files (fst (downloadPPTX offline ((intro_deck False)\<lparr> slides := [] \<rparr>) clean_white (\<lambda>i. None) None (\<lambda>i. None)
              (fresh (intro_deck False)))) = [(fileName (intro_deck False), doc)] \<and>
      length (pages doc) = 1)"
proof -
  note t1 = export_has_cover_and_one_page_per_slide [of offline "intro_deck False" clean_white
      "\<lambda>i. None" None "\<lambda>i. None" "fresh (intro_deck False)"]
  note t0 = export_has_cover_and_one_page_per_slide [of offline "(intro_deck False)\<lparr> slides := [] \<rparr>" clean_white
      "\<lambda>i. None" None "\<lambda>i. None" "fresh (intro_deck False)"]
  from t1 no_throw_offline responsive_offline obtain doc where
    d: "files (fst (downloadPPTX offline (intro_deck False) clean_white (\<lambda>i. None) None (\<lambda>i. None)
              (fresh (intro_deck False)))) = files (fresh (intro_deck False)) @ [(fileName (intro_deck False), doc)]"
    by blast
  with t1 have "length (pages doc) = length (slides (intro_deck False)) + 1 \<and>
      map page_title (pages doc) =
        Some (sanitizeText offline (mainTitle (intro_deck False))) #
        map (\<lambda>slide. Some (sanitizeText offline (title slide))) (slides (intro_deck False))"
    by blast
  then have "length (pages doc) = 2 \<and> map page_title (pages doc) = [Some (js ''My deck''), Some (js ''Intro'')]"
    by (simp add: intro_deck_def intro_slide_def sanitize_examples)
  with d have one: "\<exists>doc. files (fst (downloadPPTX offline (intro_deck False) clean_white (\<lambda>i. None) None (\<lambda>i. None)
              (fresh (intro_deck False)))) = [(fileName (intro_deck False), doc)] \<and>
      length (pages doc) = 2 \<and>
      map page_title (pages doc) = [Some (js ''My deck''), Some (js ''Intro'')]"
    by (auto simp: fresh_def)
  from t0 no_throw_offline responsive_offline obtain doc0 where
    d0: "files (fst (downloadPPTX offline ((intro_deck False)\<lparr> slides := [] \<rparr>) clean_white (\<lambda>i. None) None (\<lambda>i. None)
              (fresh (intro_deck False)))) = files (fresh (intro_deck False)) @ [(fileName ((intro_deck False)\<lparr> slides := [] \<rparr>), doc0)]"
    by blast
  with t0 have "length (pages doc0) = length (slides ((intro_deck False)\<lparr> slides := [] \<rparr>)) + 1"
    by blast
  with d0 have zero: "\<exists>doc. files (fst (downloadPPTX offline ((intro_deck False)\<lparr> slides := [] \<rparr>) clean_white (\<lambda>i. None) None (\<lambda>i. None)
              (fresh (intro_deck False)))) = [(fileName (intro_deck False), doc)] \<and>
      length (pages doc) = 1"
    by (auto simp: fresh_def fileName_def safeTitle_def)
  from one zero no_throw_offline responsive_offline show ?thesis by blast
qed

text \<open>
  Claim C2. With \<open>includeImages\<close> set, the image on the page of slide \<open>i\<close> is chosen
  by precedence: the custom image \<open>customSlideImages[i]\<close> if there is one; otherwise
  what the lookup of the URL seeded by \<open>imageSeeds[i]\<close>, or by the keyword of the slide
  if there is no seed, gave (the lookup is the request that follows those made for the
  slides before); otherwise the page has no image. In particular a custom image is the
  one embedded whatever the lookup would give.
\<close>

theorem custom_image_then_fetch_then_none:
  assumes "files (fst (downloadPPTX rt presentation theme imageSeeds backgroundImage customSlideImages w)) = files w @ [(fn, doc)]"
    and "includeImages presentation"
    and "i < length (slides presentation)"
  shows "(truthy (customSlideImages i) \<longrightarrow> page_images (pages doc ! Suc i) = [the (customSlideImages i)]) \<and>
         (\<not> truthy (customSlideImages i) \<longrightarrow>
            (\<exists>w1 r. length (requests w1) =
                       length (requests w) + fetches_before presentation imageSeeds customSlideImages i \<and>
                     snd (getBase64FromUrl rt (spec_image_url imageSeeds i (slides presentation ! i)) w1) = Some r \<and>
                     page_images (pages doc ! Suc i) = spec_image (customSlideImages i) r))"
proof -
  from downloadPPTX_files [OF assms(1)] obtain w1 where
    "assemble rt presentation theme imageSeeds backgroundImage customSlideImages w = (w1, Some (Inr doc))"
    by blast
  from assemble_Inr [OF this] obtain pgs where
    d: "pages doc = cover_page rt presentation theme # pgs" and
    r: "\<forall>j<length (slides presentation).
          rendered rt presentation theme imageSeeds customSlideImages
            (length (requests w) + fetches_before presentation imageSeeds customSlideImages j)
            j (slides presentation ! j) (pgs ! j)"
    by auto
  from r assms(3) have "rendered rt presentation theme imageSeeds customSlideImages
      (length (requests w) + fetches_before presentation imageSeeds customSlideImages i)
      i (slides presentation ! i) (pgs ! i)"
    by blast
  with assms(2) d show ?thesis
    by (cases "truthy (customSlideImages i)") (auto simp: rendered_def page_images_slide_page)
qed

theorem custom_image_then_fetch_then_none_witness:
  "(\<exists>doc. files (fst (downloadPPTX online (intro_deck True) clean_white (\<lambda>i. None) None
              (\<lambda>i. Some uploaded_image) (fresh (intro_deck True)))) = [(fileName (intro_deck True), doc)] \<and>
      page_images (pages doc ! 1) = [uploaded_image]) \<and>
   (\<exists>doc. files (fst (downloadPPTX online (intro_deck True) clean_white (\<lambda>i. None) None
              (\<lambda>i. None) (fresh (intro_deck True)))) = [(fileName (intro_deck True), doc)] \<and>
      page_images (pages doc ! 1) = [fetched_image])"
proof -
  have i: "includeImages (intro_deck True)" "0 < length (slides (intro_deck True))"
    by (simp_all add: intro_deck_def)
  have u: "truthy (Some uploaded_image)" by (simp add: uploaded_image_def js_def)
  have f: "fetched_image \<noteq> []" by (simp add: fetched_image_def js_def)
  obtain doc where d: "files (fst (downloadPPTX online (intro_deck True) clean_white (\<lambda>i. None) None
        (\<lambda>i. Some uploaded_image) (fresh (intro_deck True)))) =
        files (fresh (intro_deck True)) @ [(fileName (intro_deck True), doc)]"
    using downloadPPTX_no_throw [OF no_throw_online] responsive_online by blast
  from custom_image_then_fetch_then_none [OF d i] u
  have "page_images (pages doc ! 1) = [uploaded_image]" by simp
  with d have one: "\<exists>doc. files (fst (downloadPPTX online (intro_deck True) clean_white (\<lambda>i. None) None
              (\<lambda>i. Some uploaded_image) (fresh (intro_deck True)))) = [(fileName (intro_deck True), doc)] \<and>
      page_images (pages doc ! 1) = [uploaded_image]"
    by (auto simp: fresh_def)
  obtain doc2 where d2: "files (fst (downloadPPTX online (intro_deck True) clean_white (\<lambda>i. None) None
        (\<lambda>i. None) (fresh (intro_deck True)))) =
        files (fresh (intro_deck True)) @ [(fileName (intro_deck True), doc2)]"
    using downloadPPTX_no_throw [OF no_throw_online] responsive_online by blast
  from custom_image_then_fetch_then_none [OF d2 i] f
  have "page_images (pages doc2 ! 1) = [fetched_image]"
    by (simp add: getBase64FromUrl_online spec_image_def)
  with d2 have two: "\<exists>doc. files (fst (downloadPPTX online (intro_deck True) clean_white (\<lambda>i. None) None
              (\<lambda>i. None) (fresh (intro_deck True)))) = [(fileName (intro_deck True), doc)] \<and>
      page_images (pages doc ! 1) = [fetched_image]"
    by (auto simp: fresh_def)
  from one two show ?thesis by blast
qed

text \<open>
  Claim C8. With \<open>includeImages\<close> false the export calls \<open>fetch\<close> for no URL, whatever
  the slides, the seeds, the custom images and the runtime are.
\<close>

theorem no_images_no_fetch:
  assumes "\<not> includeImages presentation"
  shows "requests (fst (downloadPPTX rt presentation theme imageSeeds backgroundImage customSlideImages w)) = requests w"
proof (cases rule: downloadPPTX_cases [of rt presentation theme imageSeeds backgroundImage customSlideImages w])
  case (hangs w1)
  from assemble_after [OF hangs(1)] assms have "requests w1 = requests w" by (auto simp: after_def)
  with hangs(2) show ?thesis by simp
next
  case (rejects w1 e)
  from assemble_after [OF rejects(1)] assms have "requests w1 = requests w" by (auto simp: after_def)
  with rejects(2) show ?thesis by simp
next
  case (writes w1 doc)
  from assemble_after [OF writes(1)] assms have "requests w1 = requests w" by (auto simp: after_def)
  with writes(2) show ?thesis by (simp add: write_step_def)
qed

theorem no_images_no_fetch_witness:
  "\<not> includeImages (intro_deck False) \<and>
   requests (fst (downloadPPTX online (intro_deck False) clean_white (\<lambda>i. Some (js ''seed'')) None
                    (\<lambda>i. None) (fresh (intro_deck False)))) = []"
  using no_images_no_fetch [of "intro_deck False" online clean_white "\<lambda>i. Some (js ''seed'')" None
      "\<lambda>i. None" "fresh (intro_deck False)"]
  by (simp add: intro_deck_def fresh_def)

text \<open>
  Claim C10. The exported document holds one master, \<open>MASTER_SLIDE\<close>, and \<open>N + 1\<close>
  pages, the cover first; every one of them, the cover included, is laid out on that
  master. Without a custom background image a page therefore shows the flat background
  colour of the theme, the bottom bar in the accent colour and the slide number in the
  secondary colour; with one, it shows the image as its background, the same slide
  number and no bar, and no page draws a rectangle of its own (the only shape on a page
  is the separator line). A document is exported when the library throws nowhere and,
  if images are included, no body of a response stalls.
\<close>

theorem master_layout_on_every_page:
  "(\<forall>fn doc. files (fst (downloadPPTX rt presentation theme imageSeeds backgroundImage customSlideImages w)) = files w @ [(fn, doc)] \<longrightarrow>
      masters doc = [master_slide theme backgroundImage] \<and>
      length (pages doc) = length (slides presentation) + 1 \<and>
      hd (pages doc) = cover_page rt presentation theme \<and>
      (\<forall>pg \<in> set (pages doc).
          page_background doc pg =
            Some (if truthy backgroundImage then BgData (the backgroundImage)
                  else BgColor (hex_bg (hex theme))) \<and>
          page_slide_number doc pg =
            Some (SlideNumber (Pct 95) (Pct 92) (hex_secondary (hex theme)) 12 Arial) \<and>
          page_objects doc pg =
            Some (if truthy backgroundImage then []
                  else [Rect (Box (Num 0) (Pct 95) (Pct 100) (Pct 5)) (hex_accent (hex theme))]) \<and>
          set (page_shapes pg) \<subseteq> {js ''line''})) \<and>
   (no_throw rt \<and> (includeImages presentation \<longrightarrow> responsive rt) \<longrightarrow>
      (\<exists>doc. files (fst (downloadPPTX rt presentation theme imageSeeds backgroundImage customSlideImages w)) =
         files w @ [(fileName presentation, doc)]))"
proof (intro conjI allI impI ballI)
  fix fn doc
  assume f: "files (fst (downloadPPTX rt presentation theme imageSeeds backgroundImage customSlideImages w)) = files w @ [(fn, doc)]"
  from downloadPPTX_files [OF f] obtain w1 where
    "assemble rt presentation theme imageSeeds backgroundImage customSlideImages w = (w1, Some (Inr doc))"
    by blast
  from assemble_Inr [OF this] obtain pgs where
    d: "pages doc = cover_page rt presentation theme # pgs" and
    m: "masters doc = [master_slide theme backgroundImage]" and
    l: "length pgs = length (slides presentation)" and
    r: "\<forall>j<length (slides presentation).
          rendered rt presentation theme imageSeeds customSlideImages
            (length (requests w) + fetches_before presentation imageSeeds customSlideImages j)
            j (slides presentation ! j) (pgs ! j)"
    by auto
  show "masters doc = [master_slide theme backgroundImage]" by (rule m)
  show "length (pages doc) = length (slides presentation) + 1" using d l by simp
  show "hd (pages doc) = cover_page rt presentation theme" using d by simp
  fix pg assume pg: "pg \<in> set (pages doc)"
  have n: "masterName pg = MASTER_SLIDE \<and> set (page_shapes pg) \<subseteq> {js ''line''}"
  proof (cases "pg = cover_page rt presentation theme")
    case True
    then show ?thesis
      by (simp add: cover_page_def page_shapes_def split: option.splits)
  next
    case False
    with pg d obtain j where "j < length pgs" "pg = pgs ! j"
      by (auto simp: in_set_conv_nth)
    with r l have "rendered rt presentation theme imageSeeds customSlideImages
        (length (requests w) + fetches_before presentation imageSeeds customSlideImages j)
        j (slides presentation ! j) pg"
      by simp
    then show ?thesis
      by (auto simp: rendered_def masterName_slide_page page_shapes_slide_page)
  qed
  then have pm: "page_master doc pg = Some (master_slide theme backgroundImage)"
    using m by (simp add: page_master_def master_slide_def)
  show "page_background doc pg =
            Some (if truthy backgroundImage then BgData (the backgroundImage)
                  else BgColor (hex_bg (hex theme)))"
    using pm by (cases backgroundImage) (simp_all add: page_background_def master_slide_def)
  show "page_slide_number doc pg =
            Some (SlideNumber (Pct 95) (Pct 92) (hex_secondary (hex theme)) 12 Arial)"
    using pm by (simp add: page_slide_number_def master_slide_def)
  show "page_objects doc pg =
            Some (if truthy backgroundImage then []
                  else [Rect (Box (Num 0) (Pct 95) (Pct 100) (Pct 5)) (hex_accent (hex theme))])"
    using pm by (simp add: page_objects_def master_slide_def)
  show "set (page_shapes pg) \<subseteq> {js ''line''}" using n by simp
next
  assume "no_throw rt \<and> (includeImages presentation \<longrightarrow> responsive rt)"
  then have "no_throw rt" "includeImages presentation \<longrightarrow> responsive rt" by simp_all
  from downloadPPTX_no_throw [OF this]
  show "\<exists>doc. files (fst (downloadPPTX rt presentation theme imageSeeds backgroundImage customSlideImages w)) =
         files w @ [(fileName presentation, doc)]"
    by blast
qed

theorem master_layout_on_every_page_witness:
  "(\<exists>doc. files (fst (downloadPPTX offline (intro_deck False) clean_white (\<lambda>i. None) None (\<lambda>i. None)
              (fresh (intro_deck False)))) = [(fileName (intro_deck False), doc)] \<and>
      length (masters doc) = 1 \<and> length (pages doc) = 2 \<and>
      hd (pages doc) = cover_page offline (intro_deck False) clean_white \<and>
      (\<forall>pg \<in> set (pages doc).
          page_background doc pg = Some (BgColor (js ''ffffff'')) \<and>
          page_objects doc pg = Some [Rect (Box (Num 0) (Pct 95) (Pct 100) (Pct 5)) (js ''2563eb'')] \<and>
          page_slide_number doc pg = Some (SlideNumber (Pct 95) (Pct 92) (js ''6b7280'') 12 Arial))) \<and>
   (\<exists>doc. files (fst (downloadPPTX offline (intro_deck False) clean_white (\<lambda>i. None) (Some uploaded_image) (\<lambda>i. None)
              (fresh (intro_deck False)))) = [(fileName (intro_deck False), doc)] \<and>
      length (masters doc) = 1 \<and> length (pages doc) = 2 \<and>
      hd (pages doc) = cover_page offline (intro_deck False) clean_white \<and>
      (\<forall>pg \<in> set (pages doc).
          page_background doc pg = Some (BgData uploaded_image) \<and>
          page_objects doc pg = Some [] \<and>
          page_slide_number doc pg = Some (SlideNumber (Pct 95) (Pct 92) (js ''6b7280'') 12 Arial)))"
proof -
  have u: "truthy (Some uploaded_image)" by (simp add: uploaded_image_def js_def)
  have c: "hex_bg (hex clean_white) = js ''ffffff''" "hex_accent (hex clean_white) = js ''2563eb''"
    "hex_secondary (hex clean_white) = js ''6b7280''"
    by (simp_all add: clean_white_def)
  have n: "length (slides (intro_deck False)) = 1" "\<not> includeImages (intro_deck False)"
    by (simp_all add: intro_deck_def)
  note t1 = master_layout_on_every_page [of offline "intro_deck False" clean_white "\<lambda>i. None" None
      "\<lambda>i. None" "fresh (intro_deck False)"]
  from t1 no_throw_offline n obtain doc where d: "files (fst (downloadPPTX offline (intro_deck False) clean_white (\<lambda>i. None) None
        (\<lambda>i. None) (fresh (intro_deck False)))) =
        files (fresh (intro_deck False)) @ [(fileName (intro_deck False), doc)]"
    by blast
  with t1 have "masters doc = [master_slide clean_white None] \<and>
      length (pages doc) = length (slides (intro_deck False)) + 1 \<and>
      hd (pages doc) = cover_page offline (intro_deck False) clean_white \<and>
      (\<forall>pg \<in> set (pages doc).
          page_background doc pg = Some (if truthy None then BgData (the None) else BgColor (hex_bg (hex clean_white))) \<and>
          page_slide_number doc pg = Some (SlideNumber (Pct 95) (Pct 92) (hex_secondary (hex clean_white)) 12 Arial) \<and>
          page_objects doc pg = Some (if truthy None then []
                  else [Rect (Box (Num 0) (Pct 95) (Pct 100) (Pct 5)) (hex_accent (hex clean_white))]) \<and>
          set (page_shapes pg) \<subseteq> {js ''line''})"
    by blast
  with c n have "length (masters doc) = 1 \<and> length (pages doc) = 2 \<and>
      hd (pages doc) = cover_page offline (intro_deck False) clean_white \<and>
      (\<forall>pg \<in> set (pages doc).
          page_background doc pg = Some (BgColor (js ''ffffff'')) \<and>
          page_objects doc pg = Some [Rect (Box (Num 0) (Pct 95) (Pct 100) (Pct 5)) (js ''2563eb'')] \<and>
          page_slide_number doc pg = Some (SlideNumber (Pct 95) (Pct 92) (js ''6b7280'') 12 Arial))"
    by simp
  with d have one: "\<exists>doc. files (fst (downloadPPTX offline (intro_deck False) clean_white (\<lambda>i. None) None (\<lambda>i. None)
              (fresh (intro_deck False)))) = [(fileName (intro_deck False), doc)] \<and>
      length (masters doc) = 1 \<and> length (pages doc) = 2 \<and>
      hd (pages doc) = cover_page offline (intro_deck False) clean_white \<and>
      (\<forall>pg \<in> set (pages doc).
          page_background doc pg = Some (BgColor (js ''ffffff'')) \<and>
          page_objects doc pg = Some [Rect (Box (Num 0) (Pct 95) (Pct 100) (Pct 5)) (js ''2563eb'')] \<and>
          page_slide_number doc pg = Some (SlideNumber (Pct 95) (Pct 92) (js ''6b7280'') 12 Arial))"
    by (simp add: fresh_def)
  note t2 = master_layout_on_every_page [of offline "intro_deck False" clean_white "\<lambda>i. None" "Some uploaded_image"
      "\<lambda>i. None" "fresh (intro_deck False)"]
  from t2 no_throw_offline n obtain doc2 where d2: "files (fst (downloadPPTX offline (intro_deck False) clean_white (\<lambda>i. None)
        (Some uploaded_image) (\<lambda>i. None) (fresh (intro_deck False)))) =
        files (fresh (intro_deck False)) @ [(fileName (intro_deck False), doc2)]"
    by blast
  with t2 have "masters doc2 = [master_slide clean_white (Some uploaded_image)] \<and>
      length (pages doc2) = length (slides (intro_deck False)) + 1 \<and>
      hd (pages doc2) = cover_page offline (intro_deck False) clean_white \<and>
      (\<forall>pg \<in> set (pages doc2).
          page_background doc2 pg = Some (if truthy (Some uploaded_image) then BgData (the (Some uploaded_image)) else BgColor (hex_bg (hex clean_white))) \<and>
          page_slide_number doc2 pg = Some (SlideNumber (Pct 95) (Pct 92) (hex_secondary (hex clean_white)) 12 Arial) \<and>
          page_objects doc2 pg = Some (if truthy (Some uploaded_image) then []
                  else [Rect (Box (Num 0) (Pct 95) (Pct 100) (Pct 5)) (hex_accent (hex clean_white))]) \<and>
          set (page_shapes pg) \<subseteq> {js ''line''})"
    by blast
  with c n u have "length (masters doc2) = 1 \<and> length (pages doc2) = 2 \<and>
      hd (pages doc2) = cover_page offline (intro_deck False) clean_white \<and>
      (\<forall>pg \<in> set (pages doc2).
          page_background doc2 pg = Some (BgData uploaded_image) \<and>
          page_objects doc2 pg = Some [] \<and>
          page_slide_number doc2 pg = Some (SlideNumber (Pct 95) (Pct 92) (js ''6b7280'') 12 Arial))"
    by simp
  with d2 have two: "\<exists>doc. files (fst (downloadPPTX offline (intro_deck False) clean_white (\<lambda>i. None) (Some uploaded_image) (\<lambda>i. None)
              (fresh (intro_deck False)))) = [(fileName (intro_deck False), doc)] \<and>
      length (masters doc) = 1 \<and> length (pages doc) = 2 \<and>
      hd (pages doc) = cover_page offline (intro_deck False) clean_white \<and>
      (\<forall>pg \<in> set (pages doc).
          page_background doc pg = Some (BgData uploaded_image) \<and>
          page_objects doc pg = Some [] \<and>
          page_slide_number doc pg = Some (SlideNumber (Pct 95) (Pct 92) (js ''6b7280'') 12 Arial))"
    by (simp add: fresh_def)
  from one two show ?thesis by blast
qed

section \<open>Empty strings\<close>

lemma slide_add_image_falsy:
  "\<not> truthy b \<Longrightarrow> slide_add_image rt k b p = Inr p"
  by (cases b) (simp_all add: slide_add_image_def)

lemma or_else_empty: "or_else (Some []) k = or_else None k"
  by (simp add: or_else_def)

lemma spec_image_url_or_else:
  "spec_image_url imageSeeds i slide =
     js ''https://picsum.photos/seed/'' @ or_else (imageSeeds i) (imageKeyword slide) @ js ''/800/800''"
  by (cases "imageSeeds i") (simp_all add: spec_image_url_def or_else_def)

lemma slide_image_cases:
  assumes "\<not> truthy (customSlideImages i)"
  shows "(\<exists>w1. slide_image rt imageSeeds customSlideImages i slide w = (w1, None) \<and>
            getBase64FromUrl rt (spec_image_url imageSeeds i slide) w = (w1, None)) \<or>
         (\<exists>w1 f. slide_image rt imageSeeds customSlideImages i slide w = (w1, Some (Some f)) \<and> f \<noteq> [] \<and>
            getBase64FromUrl rt (spec_image_url imageSeeds i slide) w = (w1, Some (Inr f))) \<or>
         (\<exists>w1 b. slide_image rt imageSeeds customSlideImages i slide w = (w1, Some b) \<and> \<not> truthy b \<and>
            getBase64FromUrl rt (spec_image_url imageSeeds i slide) w = (w1, Some (Inr []))) \<or>
         (\<exists>w1 b e. slide_image rt imageSeeds customSlideImages i slide w =
                      (w1\<lparr> console := console w1 @ [ErrorFetchingImage i e] \<rparr>, Some b) \<and> \<not> truthy b \<and>
            getBase64FromUrl rt (spec_image_url imageSeeds i slide) w = (w1, Some (Inl e)))"
proof -
  let ?g = "getBase64FromUrl rt (spec_image_url imageSeeds i slide) w"
  obtain w1 r where g: "?g = (w1, r)" by (cases ?g)
  show ?thesis
  proof (cases r)
    case None
    with g assms show ?thesis
      by (simp add: slide_image_def Let_def spec_image_url_or_else)
  next
    case (Some x)
    show ?thesis
    proof (cases x)
      case (Inl e)
      with g Some assms show ?thesis
        by (simp add: slide_image_def Let_def spec_image_url_or_else)
    next
      case (Inr f)
      with g Some assms show ?thesis
        by (cases "f = []") (simp_all add: slide_image_def Let_def spec_image_url_or_else)
    qed
  qed
qed

lemma content_slide_falsy:
  assumes c: "customSlideImages i = c2 i \<or> (\<not> truthy (customSlideImages i) \<and> \<not> truthy (c2 i))"
    and s: "or_else (imageSeeds i) (imageKeyword slide) = or_else (s2 i) (imageKeyword slide)"
  shows "content_slide rt presentation theme imageSeeds customSlideImages i slide st =
         content_slide rt presentation theme s2 c2 i slide st"
proof -
  obtain w p where st: "st = (w, p)" by (cases st)
  have u: "spec_image_url imageSeeds i slide = spec_image_url s2 i slide"
    using s by (simp add: spec_image_url_or_else)
  show ?thesis
  proof (cases "slide_text rt theme (includeImages presentation) slide p")
    case (Inl e)
    then show ?thesis unfolding st by (simp add: content_slide_throws)
  next
    case (Inr p1)
    show ?thesis
    proof (cases "includeImages presentation")
      case False
      with Inr show ?thesis unfolding st by (simp add: content_slide_plain)
    next
      case True
      show ?thesis
      proof (cases "truthy (customSlideImages i)")
        case t: True
        with c have "customSlideImages i = c2 i" by auto
        with t have "slide_image rt imageSeeds customSlideImages i slide w = (w, Some (c2 i))"
          "slide_image rt s2 c2 i slide w = (w, Some (c2 i))"
          by (simp_all add: slide_image_def)
        with Inr True show ?thesis unfolding st by (simp add: content_slide_image)
      next
        case f: False
        with c have f2: "\<not> truthy (c2 i)" by auto
        from slide_image_cases [where customSlideImages = customSlideImages and i = i and rt = rt
              and imageSeeds = imageSeeds and slide = slide and w = w] f
        have 1: "(\<exists>w1. slide_image rt imageSeeds customSlideImages i slide w = (w1, None) \<and>
            getBase64FromUrl rt (spec_image_url imageSeeds i slide) w = (w1, None)) \<or>
         (\<exists>w1 f. slide_image rt imageSeeds customSlideImages i slide w = (w1, Some (Some f)) \<and> f \<noteq> [] \<and>
            getBase64FromUrl rt (spec_image_url imageSeeds i slide) w = (w1, Some (Inr f))) \<or>
         (\<exists>w1 b. slide_image rt imageSeeds customSlideImages i slide w = (w1, Some b) \<and> \<not> truthy b \<and>
            getBase64FromUrl rt (spec_image_url imageSeeds i slide) w = (w1, Some (Inr []))) \<or>
         (\<exists>w1 b e. slide_image rt imageSeeds customSlideImages i slide w =
                      (w1\<lparr> console := console w1 @ [ErrorFetchingImage i e] \<rparr>, Some b) \<and> \<not> truthy b \<and>
            getBase64FromUrl rt (spec_image_url imageSeeds i slide) w = (w1, Some (Inl e)))"
          by blast
        from slide_image_cases [where customSlideImages = c2 and i = i and rt = rt
              and imageSeeds = s2 and slide = slide and w = w] f2
        have 2: "(\<exists>w1. slide_image rt s2 c2 i slide w = (w1, None) \<and>
            getBase64FromUrl rt (spec_image_url s2 i slide) w = (w1, None)) \<or>
         (\<exists>w1 f. slide_image rt s2 c2 i slide w = (w1, Some (Some f)) \<and> f \<noteq> [] \<and>
            getBase64FromUrl rt (spec_image_url s2 i slide) w = (w1, Some (Inr f))) \<or>
         (\<exists>w1 b. slide_image rt s2 c2 i slide w = (w1, Some b) \<and> \<not> truthy b \<and>
            getBase64FromUrl rt (spec_image_url s2 i slide) w = (w1, Some (Inr []))) \<or>
         (\<exists>w1 b e. slide_image rt s2 c2 i slide w =
                      (w1\<lparr> console := console w1 @ [ErrorFetchingImage i e] \<rparr>, Some b) \<and> \<not> truthy b \<and>
            getBase64FromUrl rt (spec_image_url s2 i slide) w = (w1, Some (Inl e)))"
          by blast
        from 1 2 Inr True show ?thesis unfolding st u
          by (auto simp: content_slide_image content_slide_hangs slide_add_image_falsy)
      qed
    qed
  qed
qed

lemma content_slides_falsy:
  assumes "\<And>j. customSlideImages j = c2 j \<or> (\<not> truthy (customSlideImages j) \<and> \<not> truthy (c2 j))"
    and "\<And>j k. or_else (imageSeeds j) k = or_else (s2 j) k"
  shows "content_slides rt presentation theme imageSeeds customSlideImages i ss st =
         content_slides rt presentation theme s2 c2 i ss st"
proof (induction ss arbitrary: i st)
  case Nil
  show ?case by simp
next
  case (Cons slide rest)
  have "content_slide rt presentation theme imageSeeds customSlideImages i slide st =
        content_slide rt presentation theme s2 c2 i slide st"
    using assms by (intro content_slide_falsy) auto
  with Cons.IH show ?case by (simp split: prod.splits option.splits sum.splits)
qed

lemma downloadPPTX_falsy:
  assumes "\<And>j. customSlideImages j = c2 j \<or> (\<not> truthy (customSlideImages j) \<and> \<not> truthy (c2 j))"
    and "\<And>j k. or_else (imageSeeds j) k = or_else (s2 j) k"
  shows "downloadPPTX rt presentation theme imageSeeds backgroundImage customSlideImages w =
         downloadPPTX rt presentation theme s2 backgroundImage c2 w"
proof -
  have "\<And>i ss st. content_slides rt presentation theme imageSeeds customSlideImages i ss st =
         content_slides rt presentation theme s2 c2 i ss st"
    using assms by (rule content_slides_falsy)
  then have "assemble rt presentation theme imageSeeds backgroundImage customSlideImages w =
             assemble rt presentation theme s2 backgroundImage c2 w"
    by (simp add: assemble_def Let_def split: sum.splits)
  then show ?thesis by (simp add: downloadPPTX_def)
qed

text \<open>
  Claim C9. A custom image that is the empty string and an image seed that is the
  empty string are treated as absent. The export with an empty custom image for a
  slide is the export with none for it in every respect, and likewise for a seed. In
  an exported document with images, the lookup for a slide whose custom image is the
  empty string is made: it is the request whose number is the number of lookups made
  for the slides before, it goes to the URL of the slide, and the page of the slide
  carries what that lookup gives, the fetched image or nothing. If the slide has no
  custom image and its seed is the empty string, that request goes to
  \<open>https://picsum.photos/seed/<imageKeyword>/800/800\<close>. A document is exported when the
  library throws nowhere and no body of a response stalls.
\<close>

theorem empty_string_is_absent:
  "downloadPPTX rt presentation theme imageSeeds backgroundImage (customSlideImages(i := Some [])) w =
   downloadPPTX rt presentation theme imageSeeds backgroundImage (customSlideImages(i := None)) w \<and>
   downloadPPTX rt presentation theme (imageSeeds(i := Some [])) backgroundImage customSlideImages w =
   downloadPPTX rt presentation theme (imageSeeds(i := None)) backgroundImage customSlideImages w \<and>
   (\<forall>fn doc. files (fst (downloadPPTX rt presentation theme imageSeeds backgroundImage customSlideImages w)) = files w @ [(fn, doc)] \<and>
        includeImages presentation \<and> i < length (slides presentation) \<and> customSlideImages i = Some [] \<longrightarrow>
      length (requests w) + fetches_before presentation imageSeeds customSlideImages i <
        length (requests (fst (downloadPPTX rt presentation theme imageSeeds backgroundImage customSlideImages w))) \<and>
      requests (fst (downloadPPTX rt presentation theme imageSeeds backgroundImage customSlideImages w)) !
        (length (requests w) + fetches_before presentation imageSeeds customSlideImages i) =
        spec_image_url imageSeeds i (slides presentation ! i) \<and>
      (\<exists>w1 r. length (requests w1) = length (requests w) + fetches_before presentation imageSeeds customSlideImages i \<and>
         snd (getBase64FromUrl rt (spec_image_url imageSeeds i (slides presentation ! i)) w1) = Some r \<and>
         page_images (pages doc ! Suc i) = (case r of Inr f \<Rightarrow> if f \<noteq> [] then [f] else [] | Inl e \<Rightarrow> []))) \<and>
   (\<forall>fn doc. files (fst (downloadPPTX rt presentation theme imageSeeds backgroundImage customSlideImages w)) = files w @ [(fn, doc)] \<and>
        includeImages presentation \<and> i < length (slides presentation) \<and>
        \<not> truthy (customSlideImages i) \<and> imageSeeds i = Some [] \<longrightarrow>
      length (requests w) + fetches_before presentation imageSeeds customSlideImages i <
        length (requests (fst (downloadPPTX rt presentation theme imageSeeds backgroundImage customSlideImages w))) \<and>
      requests (fst (downloadPPTX rt presentation theme imageSeeds backgroundImage customSlideImages w)) !
        (length (requests w) + fetches_before presentation imageSeeds customSlideImages i) =
        js ''https://picsum.photos/seed/'' @ imageKeyword (slides presentation ! i) @ js ''/800/800'') \<and>
   (no_throw rt \<and> responsive rt \<longrightarrow>
      (\<exists>doc. files (fst (downloadPPTX rt presentation theme imageSeeds backgroundImage customSlideImages w)) =
         files w @ [(fileName presentation, doc)]))"
proof -
  let ?R = "downloadPPTX rt presentation theme imageSeeds backgroundImage customSlideImages w"
  let ?k = "length (requests w) + fetches_before presentation imageSeeds customSlideImages i"
  have req: "?k < length (requests (fst ?R)) \<and>
             requests (fst ?R) ! ?k = spec_image_url imageSeeds i (slides presentation ! i) \<and>
             (\<exists>w1 r. length (requests w1) = ?k \<and>
                snd (getBase64FromUrl rt (spec_image_url imageSeeds i (slides presentation ! i)) w1) = Some r \<and>
                page_images (pages doc ! Suc i) = spec_image (customSlideImages i) r)"
    if f: "files (fst ?R) = files w @ [(fn, doc)]" and inc: "includeImages presentation"
      and i: "i < length (slides presentation)" and c: "\<not> truthy (customSlideImages i)"
    for fn doc
  proof -
    from downloadPPTX_files [OF f] obtain w1 where
      a: "assemble rt presentation theme imageSeeds backgroundImage customSlideImages w = (w1, Some (Inr doc))"
      and r: "requests (fst ?R) = requests w1"
      by blast
    from assemble_Inr [OF a] obtain pgs where
      d: "pages doc = cover_page rt presentation theme # pgs" and
      l: "length pgs = length (slides presentation)" and
      aft: "after w (spec_requests presentation imageSeeds customSlideImages) w1" and
      rn: "\<forall>j<length (slides presentation).
          rendered rt presentation theme imageSeeds customSlideImages
            (length (requests w) + fetches_before presentation imageSeeds customSlideImages j)
            j (slides presentation ! j) (pgs ! j)"
      by auto
    from aft r have rq: "requests (fst ?R) = requests w @ spec_requests presentation imageSeeds customSlideImages"
      by (simp add: after_def)
    from spec_requests_nth [where presentation = presentation and customSlideImages = customSlideImages
          and i = i and imageSeeds = imageSeeds] i inc c
    have n: "fetches_before presentation imageSeeds customSlideImages i <
               length (spec_requests presentation imageSeeds customSlideImages)"
      "spec_requests presentation imageSeeds customSlideImages !
           fetches_before presentation imageSeeds customSlideImages i =
           spec_image_url imageSeeds i (slides presentation ! i)"
      by simp_all
    from rn i have "rendered rt presentation theme imageSeeds customSlideImages ?k
            i (slides presentation ! i) (pgs ! i)"
      by simp
    with inc c d have "\<exists>w1 r. length (requests w1) = ?k \<and>
                snd (getBase64FromUrl rt (spec_image_url imageSeeds i (slides presentation ! i)) w1) = Some r \<and>
                page_images (pages doc ! Suc i) = spec_image (customSlideImages i) r"
      by (auto simp: rendered_def page_images_slide_page)
    with rq n show ?thesis by (simp add: nth_append)
  qed
  have 1: "downloadPPTX rt presentation theme imageSeeds backgroundImage (customSlideImages(i := Some [])) w =
           downloadPPTX rt presentation theme imageSeeds backgroundImage (customSlideImages(i := None)) w"
    by (rule downloadPPTX_falsy) simp_all
  have 2: "downloadPPTX rt presentation theme (imageSeeds(i := Some [])) backgroundImage customSlideImages w =
           downloadPPTX rt presentation theme (imageSeeds(i := None)) backgroundImage customSlideImages w"
    by (rule downloadPPTX_falsy) (simp_all add: or_else_def)
  have 3: "?k < length (requests (fst ?R)) \<and>
      requests (fst ?R) ! ?k = spec_image_url imageSeeds i (slides presentation ! i) \<and>
      (\<exists>w1 r. length (requests w1) = ?k \<and>
         snd (getBase64FromUrl rt (spec_image_url imageSeeds i (slides presentation ! i)) w1) = Some r \<and>
         page_images (pages doc ! Suc i) = (case r of Inr f \<Rightarrow> if f \<noteq> [] then [f] else [] | Inl e \<Rightarrow> []))"
    if "files (fst ?R) = files w @ [(fn, doc)] \<and>
        includeImages presentation \<and> i < length (slides presentation) \<and> customSlideImages i = Some []"
    for fn doc
  proof -
    from that have c: "\<not> truthy (customSlideImages i)" by simp
    from that have s: "\<And>r. spec_image (customSlideImages i) r =
        (case r of Inr f \<Rightarrow> if f \<noteq> [] then [f] else [] | Inl e \<Rightarrow> [])"
      by (simp add: spec_image_def)
    from req [OF _ _ _ c, of fn doc] that show ?thesis unfolding s by blast
  qed
  have 4: "?k < length (requests (fst ?R)) \<and>
      requests (fst ?R) ! ?k = js ''https://picsum.photos/seed/'' @ imageKeyword (slides presentation ! i) @ js ''/800/800''"
    if "files (fst ?R) = files w @ [(fn, doc)] \<and>
        includeImages presentation \<and> i < length (slides presentation) \<and>
        \<not> truthy (customSlideImages i) \<and> imageSeeds i = Some []"
    for fn doc
  proof -
    from that have "spec_image_url imageSeeds i (slides presentation ! i) =
        js ''https://picsum.photos/seed/'' @ imageKeyword (slides presentation ! i) @ js ''/800/800''"
      by (simp add: spec_image_url_def)
    with req [of fn doc] that show ?thesis by simp
  qed
  have 5: "\<exists>doc. files (fst ?R) = files w @ [(fileName presentation, doc)]"
    if "no_throw rt \<and> responsive rt"
    using downloadPPTX_no_throw [of rt presentation theme imageSeeds backgroundImage customSlideImages w] that
    by blast
  from 1 2 3 4 5 show ?thesis by blast
qed

theorem empty_string_is_absent_witness:
  "downloadPPTX online (intro_deck True) clean_white (\<lambda>i. Some []) None ((\<lambda>i. Some [])(0 := Some [])) (fresh (intro_deck True)) =
   downloadPPTX online (intro_deck True) clean_white (\<lambda>i. Some []) None ((\<lambda>i. Some [])(0 := None)) (fresh (intro_deck True)) \<and>
   downloadPPTX online (intro_deck True) clean_white ((\<lambda>i. Some [])(0 := Some [])) None (\<lambda>i. Some []) (fresh (intro_deck True)) =
   downloadPPTX online (intro_deck True) clean_white ((\<lambda>i. Some [])(0 := None)) None (\<lambda>i. Some []) (fresh (intro_deck True)) \<and>
   (\<exists>doc. files (fst (downloadPPTX online (intro_deck True) clean_white (\<lambda>i. Some []) None (\<lambda>i. Some [])
              (fresh (intro_deck True)))) = [(fileName (intro_deck True), doc)] \<and>
      0 < length (requests (fst (downloadPPTX online (intro_deck True) clean_white (\<lambda>i. Some []) None (\<lambda>i. Some [])
              (fresh (intro_deck True))))) \<and>
      requests (fst (downloadPPTX online (intro_deck True) clean_white (\<lambda>i. Some []) None (\<lambda>i. Some [])
              (fresh (intro_deck True)))) ! 0 = js ''https://picsum.photos/seed/sea/800/800'' \<and>
      page_images (pages doc ! 1) = [fetched_image])"
proof -
  let ?D = "intro_deck True"
  let ?e = "\<lambda>i::nat. Some ([]::jsstring)"
  let ?R = "downloadPPTX online ?D clean_white ?e None ?e (fresh ?D)"
  note t = empty_string_is_absent [of online ?D clean_white ?e None ?e 0 "fresh ?D"]
  have i: "includeImages ?D" "0 < length (slides ?D)" "?e 0 = Some []" "\<not> truthy (?e 0)"
    by (simp_all add: intro_deck_def)
  have fb: "length (requests (fresh ?D)) + fetches_before ?D ?e ?e 0 = 0"
    by (simp add: fetches_before_def fresh_def)
  have fl: "files (fresh ?D) = []" by (simp add: fresh_def)
  have url: "js ''https://picsum.photos/seed/'' @ imageKeyword (slides ?D ! 0) @ js ''/800/800'' =
     js ''https://picsum.photos/seed/sea/800/800''"
    by (simp add: intro_deck_def intro_slide_def js_def)
  have f: "fetched_image \<noteq> []" by (simp add: fetched_image_def js_def)
  from t have 1: "downloadPPTX online ?D clean_white ?e None (?e(0 := Some [])) (fresh ?D) =
      downloadPPTX online ?D clean_white ?e None (?e(0 := None)) (fresh ?D)"
    by (rule conjunct1)
  from t have 2: "downloadPPTX online ?D clean_white (?e(0 := Some [])) None ?e (fresh ?D) =
      downloadPPTX online ?D clean_white (?e(0 := None)) None ?e (fresh ?D)"
    by (rule conjunct2 [THEN conjunct1])
  from t no_throw_online responsive_online obtain doc where
    d: "files (fst ?R) = files (fresh ?D) @ [(fileName ?D, doc)]"
    by blast
  from t d i have "length (requests (fresh ?D)) + fetches_before ?D ?e ?e 0 < length (requests (fst ?R)) \<and>
      requests (fst ?R) ! (length (requests (fresh ?D)) + fetches_before ?D ?e ?e 0) =
        js ''https://picsum.photos/seed/'' @ imageKeyword (slides ?D ! 0) @ js ''/800/800'' \<and>
      (\<exists>w1 r. length (requests w1) = length (requests (fresh ?D)) + fetches_before ?D ?e ?e 0 \<and>
         snd (getBase64FromUrl online (spec_image_url ?e 0 (slides ?D ! 0)) w1) = Some r \<and>
         page_images (pages doc ! Suc 0) = (case r of Inr f \<Rightarrow> if f \<noteq> [] then [f] else [] | Inl e \<Rightarrow> []))"
    by blast
  then have "0 < length (requests (fst ?R)) \<and>
      requests (fst ?R) ! 0 = js ''https://picsum.photos/seed/sea/800/800'' \<and>
      page_images (pages doc ! 1) = [fetched_image]"
    unfolding fb url using f by (auto simp: getBase64FromUrl_online)
  with d fl have 3: "\<exists>doc. files (fst ?R) = [(fileName ?D, doc)] \<and>
      0 < length (requests (fst ?R)) \<and>
      requests (fst ?R) ! 0 = js ''https://picsum.photos/seed/sea/800/800'' \<and>
      page_images (pages doc ! 1) = [fetched_image]"
    by auto
  from 1 2 3 show ?thesis by blast
qed

section \<open>The file name\<close>






section \<open>Failures\<close>














section \<open>Image fetches\<close>








end
